theory Spec2Isabelle
  imports Main "HOL-Library.Sublist" "HOL-Library.Char_ord" "HOL-Library.List_Lexorder"
begin

section \<open>JSON values as the TypeScript code sees them\<close>

text \<open>
  Every payload the code inspects is the result of \<^verbatim>\<open>response.json()\<close> or a value read
  back from storage, typed \<^verbatim>\<open>any\<close>. Such a value is null, a boolean, a number, a string,
  an array or an object. An object is kept as the list of its own properties in the order
  \<^verbatim>\<open>Object.keys\<close> enumerates them (keys are distinct in a parsed object; a lookup takes the
  first entry). Numbers are kept as integers: no claim below does arithmetic on a payload
  number, only its truthiness (non-zero) and its decimal rendering are used.
  Strings are lists of 8-bit code units (Latin-1).
  Reading a property that is missing gives \<^verbatim>\<open>undefined\<close>, which is \<open>None\<close> here.
\<close>

datatype json =
    JNull
  | JBool bool
  | JNum int
  | JStr string
  | JArr "json list"
  | JObj "(string \<times> json) list"

text \<open>JavaScript truthiness: \<^verbatim>\<open>!!v\<close>.\<close>

fun truthy :: "json \<Rightarrow> bool" where
  "truthy JNull = False"
| "truthy (JBool b) = b"
| "truthy (JNum n) = (n \<noteq> 0)"
| "truthy (JStr s) = (s \<noteq> [])"
| "truthy (JArr xs) = True"
| "truthy (JObj kvs) = True"

fun truthy_opt :: "json option \<Rightarrow> bool" where
  "truthy_opt None = False"
| "truthy_opt (Some v) = truthy v"

text \<open>\<^verbatim>\<open>typeof v === 'object'\<close> holds for null, arrays and objects.\<close>

fun typeof_object :: "json \<Rightarrow> bool" where
  "typeof_object JNull = True"
| "typeof_object (JArr xs) = True"
| "typeof_object (JObj kvs) = True"
| "typeof_object v = False"

fun isArray :: "json \<Rightarrow> bool" where
  "isArray (JArr xs) = True"
| "isArray v = False"

text \<open>
  \<^verbatim>\<open>v.k\<close> on a value that is neither null nor undefined. None of the property names the
  code reads (status, response, data, content, name, target, ...) is a built-in property of
  a string, number, boolean or array, so only an object can answer with a value.
\<close>

fun getp :: "json \<Rightarrow> string \<Rightarrow> json option" where
  "getp (JObj kvs) k = map_of kvs k"
| "getp v k = None"

text \<open>Optional chaining \<^verbatim>\<open>v?.k\<close>: undefined when \<^verbatim>\<open>v\<close> is null or undefined.\<close>

fun optp :: "json option \<Rightarrow> string \<Rightarrow> json option" where
  "optp None k = None"
| "optp (Some JNull) k = None"
| "optp (Some v) k = getp v k"

text \<open>\<^verbatim>\<open>a || b\<close> on possibly undefined values.\<close>

fun jor :: "json option \<Rightarrow> json option \<Rightarrow> json option" where
  "jor (Some a) b = (if truthy a then Some a else b)"
| "jor None b = b"

text \<open>\<^verbatim>\<open>a || d\<close> where the last alternative \<^verbatim>\<open>d\<close> is a defined value.\<close>

fun jor_default :: "json option \<Rightarrow> json \<Rightarrow> json" where
  "jor_default (Some a) d = (if truthy a then a else d)"
| "jor_default None d = d"

section \<open>Interval policy (pollingUtils)\<close>

text \<open>
  \<^verbatim>\<open>getProgressivePollingInterval(attemptNumber)\<close>: attempt numbers are integers
  (the callers pass \<^verbatim>\<open>pollCounter + 1\<close>).
\<close>

definition getProgressivePollingInterval :: "int \<Rightarrow> int" where
  "getProgressivePollingInterval attemptNumber =
     (if attemptNumber \<le> 10 then 10000
      else if attemptNumber \<le> 20 then 20000
      else 30000)"

section \<open>Strings\<close>

text \<open>
  \<^verbatim>\<open>String.prototype.toLowerCase\<close> on 8-bit code units: the capital letters A to Z and the
  Latin-1 capitals U+00C0 to U+00DE (without the multiplication sign U+00D7) move up by 32,
  every other code unit stays.
\<close>

definition toLowerCase_char :: "char \<Rightarrow> char" where
  "toLowerCase_char c =
     (let n = (of_char c :: nat) in
      if (65 \<le> n \<and> n \<le> 90) \<or> (192 \<le> n \<and> n \<le> 214) \<or> (216 \<le> n \<and> n \<le> 222)
      then char_of (n + 32) else c)"

definition toLowerCase :: "string \<Rightarrow> string" where
  "toLowerCase s = map toLowerCase_char s"

text \<open>
  The white space \<^verbatim>\<open>trim()\<close> removes, among 8-bit code units: tab, line feed, vertical tab,
  form feed, carriage return, space and no-break space. The line terminators, which the
  regular-expression dot does not match: line feed and carriage return.
\<close>

definition isWhiteSpace :: "char \<Rightarrow> bool" where
  "isWhiteSpace c = ((of_char c :: nat) \<in> {9, 10, 11, 12, 13, 32, 160})"

definition isLineTerminator :: "char \<Rightarrow> bool" where
  "isLineTerminator c = ((of_char c :: nat) \<in> {10, 13})"

definition trim :: "string \<Rightarrow> string" where
  "trim s = rev (dropWhile isWhiteSpace (rev (dropWhile isWhiteSpace s)))"

text \<open>\<^verbatim>\<open>s.includes(p)\<close>: \<^verbatim>\<open>p\<close> occurs in \<^verbatim>\<open>s\<close> at some position.\<close>

fun str_includes :: "string \<Rightarrow> string \<Rightarrow> bool" where
  "str_includes [] p = (p = [])"
| "str_includes (c # cs) p = (prefix p (c # cs) \<or> str_includes cs p)"

section \<open>Key normalisation (marketingPlanService and domainUtils)\<close>

text \<open>
  The three replacements both implementations apply, each replacing the first match only:
  \<^verbatim>\<open>replace(/^https?:\/\//, '')\<close>, \<^verbatim>\<open>replace(/\/.*$/, '')\<close> and \<^verbatim>\<open>replace(/^www\./, '')\<close>.
  The second one matches at the leftmost slash after which no line terminator follows
  (the dot stops at a line terminator and \<^verbatim>\<open>$\<close> is the end of the input), and removes
  everything from that slash on.
\<close>

definition strip_protocol :: "string \<Rightarrow> string" where
  "strip_protocol s =
     (if prefix ''http://'' s then drop 7 s
      else if prefix ''https://'' s then drop 8 s
      else s)"

fun strip_path :: "string \<Rightarrow> string" where
  "strip_path [] = []"
| "strip_path (c # cs) =
     (if c = CHR ''/'' \<and> \<not> list_ex isLineTerminator cs then [] else c # strip_path cs)"

definition strip_www :: "string \<Rightarrow> string" where
  "strip_www s = (if prefix ''www.'' s then drop 4 s else s)"

text \<open>
  \<^verbatim>\<open>normalizeDomain\<close> of marketingPlanService.ts: empty input gives the empty string;
  otherwise protocol, path and \<^verbatim>\<open>www.\<close> are stripped, then the string is lower-cased and
  trimmed.
\<close>

definition normalizeDomain_service :: "string \<Rightarrow> string" where
  "normalizeDomain_service domain =
     (if domain = [] then []
      else trim (toLowerCase (strip_www (strip_path (strip_protocol domain)))))"

text \<open>
  \<^verbatim>\<open>normalizeDomain\<close> of domainUtils: trim and lower-case first, then the three
  replacements.
\<close>

definition normalizeDomain_utils :: "string \<Rightarrow> string" where
  "normalizeDomain_utils domain =
     strip_www (strip_path (strip_protocol (toLowerCase (trim domain))))"

text \<open>A string without white-space characters, as a domain name is.\<close>

definition noWhiteSpace :: "string \<Rightarrow> bool" where
  "noWhiteSpace s = (\<not> list_ex isWhiteSpace s)"

section \<open>JSON.stringify\<close>

text \<open>
  \<^verbatim>\<open>JSON.stringify(v)\<close> without indentation: numbers in decimal, strings in double quotes
  with the escapes of the standard (quote, backslash, the short escapes for backspace, form
  feed, line feed, carriage return and tab, \<^verbatim>\<open>\u00XX\<close> for the other control characters),
  array elements and object members separated by commas, object members as key, colon, value.
\<close>

definition digit_char :: "nat \<Rightarrow> char" where
  "digit_char d = char_of (48 + d)"

fun show_nat :: "nat \<Rightarrow> string" where
  "show_nat n = (if n < 10 then [digit_char n] else show_nat (n div 10) @ [digit_char (n mod 10)])"

declare show_nat.simps [simp del]

definition show_int :: "int \<Rightarrow> string" where
  "show_int i = (if i < 0 then CHR ''-'' # show_nat (nat (- i)) else show_nat (nat i))"

definition hex_char :: "nat \<Rightarrow> char" where
  "hex_char d = (if d < 10 then char_of (48 + d) else char_of (87 + d))"

definition escape_char :: "char \<Rightarrow> string" where
  "escape_char c =
     (let n = (of_char c :: nat) in
      if c = CHR 0x22 then [CHR 0x5C, CHR 0x22]
      else if c = CHR 0x5C then [CHR 0x5C, CHR 0x5C]
      else if n = 8 then [CHR 0x5C, CHR ''b'']
      else if n = 12 then [CHR 0x5C, CHR ''f'']
      else if n = 10 then [CHR 0x5C, CHR ''n'']
      else if n = 13 then [CHR 0x5C, CHR ''r'']
      else if n = 9 then [CHR 0x5C, CHR ''t'']
      else if n < 32 then [CHR 0x5C, CHR ''u'', CHR ''0'', CHR ''0'', hex_char (n div 16), hex_char (n mod 16)]
      else [c])"

definition quote :: "string \<Rightarrow> string" where
  "quote s = CHR 0x22 # concat (map escape_char s) @ [CHR 0x22]"

fun join_comma :: "string list \<Rightarrow> string" where
  "join_comma [] = []"
| "join_comma [x] = x"
| "join_comma (x # y # ys) = x @ CHR '','' # join_comma (y # ys)"

fun stringify :: "json \<Rightarrow> string" where
  "stringify JNull = ''null''"
| "stringify (JBool b) = (if b then ''true'' else ''false'')"
| "stringify (JNum n) = show_int n"
| "stringify (JStr s) = quote s"
| "stringify (JArr xs) = CHR ''['' # join_comma (map stringify xs) @ [CHR '']'']"
| "stringify (JObj kvs) =
     CHR ''{'' # join_comma (map (\<lambda>(k, v). quote k @ CHR '':'' # stringify v) kvs) @ [CHR ''}'']"

section \<open>Response classifier (api.ts, pollingUtils, useCompetitorStackData)\<close>

text \<open>The phrase list of \<^verbatim>\<open>containsErrorMessage\<close>, in the order of the source.\<close>

definition errorPhrases :: "string list" where
  "errorPhrases =
     [''encountered an issue'', ''i'm sorry'', ''couldn't analyze'', ''failed to analyze'',
      ''unable to'', ''error occurred'', ''invalid domain'']"

text \<open>\<^verbatim>\<open>Object.keys(v)\<close> for a value that is neither null nor undefined.\<close>

fun objectKeys :: "json \<Rightarrow> string list" where
  "objectKeys (JObj kvs) = map fst kvs"
| "objectKeys (JArr xs) = map show_nat [0..<length xs]"
| "objectKeys (JStr s) = map show_nat [0..<length s]"
| "objectKeys v = []"

definition isDigit :: "char \<Rightarrow> bool" where
  "isDigit c = (48 \<le> (of_char c :: nat) \<and> (of_char c :: nat) \<le> 57)"

text \<open>\<^verbatim>\<open>key.match(/^program_\d+_details$/)\<close>\<close>

definition isProgramDetailsKey :: "string \<Rightarrow> bool" where
  "isProgramDetailsKey k =
     (prefix ''program_'' k \<and>
      (let r = drop 8 k in
       takeWhile isDigit r \<noteq> [] \<and> dropWhile isDigit r = ''_details''))"

text \<open>The content the classifier looks at: \<^verbatim>\<open>response.response?.data?.content\<close>.\<close>

definition responseContent :: "json \<Rightarrow> json option" where
  "responseContent response = optp (optp (getp response ''response'') ''data'') ''content''"

definition containsErrorMessage :: "json \<Rightarrow> bool" where
  "containsErrorMessage response =
     (if \<not> truthy response then False
      else
        (case jor (responseContent response) (getp response ''content'') of
           Some (JStr content) \<Rightarrow>
             list_ex (\<lambda>phrase. str_includes (toLowerCase content) (toLowerCase phrase)) errorPhrases
         | Some content \<Rightarrow>
             if typeof_object content \<and> content \<noteq> JNull
             then list_ex (\<lambda>phrase.
                    str_includes (toLowerCase (stringify content)) (toLowerCase phrase)) errorPhrases
             else False
         | None \<Rightarrow> False))"

definition isAnalysisComplete :: "json \<Rightarrow> bool" where
  "isAnalysisComplete response =
     (if \<not> truthy response then False
      else if containsErrorMessage response then False
      else if \<not> (getp response ''status'' = Some (JStr ''succeeded'') \<or>
                   getp response ''status'' = Some (JStr ''completed'')) then False
      else
        (case responseContent response of
           None \<Rightarrow> False
         | Some content \<Rightarrow>
             if \<not> truthy content then False
             else if \<not> typeof_object content \<or> length (objectKeys content) = 0 then False
             else
               (let company_summary = getp content ''company_summary'';
                    programs_list = getp content ''programs_list'';
                    hasCompanySummary =
                      (case company_summary of
                         None \<Rightarrow> False
                       | Some cs \<Rightarrow> truthy cs \<and> typeof_object cs \<and> length (objectKeys cs) > 0);
                    programsListValid =
                      (case programs_list of
                         None \<Rightarrow> False
                       | Some pl \<Rightarrow>
                           if \<not> truthy pl then False
                           else if isArray pl then length (objectKeys pl) > 0
                           else if typeof_object pl then length (objectKeys pl) > 0
                           else False);
                    hasProgramDetails = list_ex isProgramDetailsKey (objectKeys content)
                in hasCompanySummary \<and> (programsListValid \<or> hasProgramDetails))))"

definition hasMinimumContent :: "json \<Rightarrow> bool" where
  "hasMinimumContent response =
     (if \<not> truthy response \<or> \<not> truthy_opt (responseContent response) then False
      else if getp response ''status'' = Some (JStr ''succeeded'') then True
      else
        (case responseContent response of
           None \<Rightarrow> False
         | Some content \<Rightarrow>
             (let hasCompanySummary =
                    (case getp content ''company_summary'' of
                       None \<Rightarrow> False
                     | Some cs \<Rightarrow> truthy cs \<and> typeof_object cs);
                  hasProgramsList =
                    (case getp content ''programs_list'' of
                       None \<Rightarrow> False
                     | Some pl \<Rightarrow> truthy pl \<and> (isArray pl \<or> typeof_object pl));
                  hasProgramDetails = list_ex isProgramDetailsKey (objectKeys content)
              in hasCompanySummary \<or> hasProgramsList \<or> hasProgramDetails)))"

definition hasAnyUsableData :: "json \<Rightarrow> bool" where
  "hasAnyUsableData response =
     (if truthy response \<and> getp response ''status'' = Some (JStr ''succeeded'') then True
      else if \<not> truthy response \<or> \<not> truthy_opt (getp response ''response'')
           \<or> \<not> truthy_opt (optp (getp response ''response'') ''data'')
           \<or> \<not> truthy_opt (responseContent response) then False
      else
        (case responseContent response of
           None \<Rightarrow> False
         | Some content \<Rightarrow>
             truthy_opt (getp content ''company_summary'') \<or>
             truthy_opt (getp content ''programs_list'') \<or>
             list_ex isProgramDetailsKey (objectKeys content)))"

definition extractCompetitors :: "json \<Rightarrow> json list option" where
  "extractCompetitors response =
     (if \<not> truthy response \<or> \<not> truthy_opt (responseContent response) then None
      else
        (case responseContent response of
           None \<Rightarrow> None
         | Some content \<Rightarrow>
             (case getp content ''competitors'' of
                Some (JArr xs) \<Rightarrow> Some xs
              | _ \<Rightarrow>
                (case getp content ''competitor_list'' of
                   Some (JArr xs) \<Rightarrow> Some xs
                 | _ \<Rightarrow>
                   (case getp content ''top_competitors'' of
                      Some (JArr xs) \<Rightarrow> Some xs
                    | _ \<Rightarrow> Some [content])))))"

subsection \<open>Notions the claims are stated with\<close>

text \<open>
  A value that is present and is an object or an array; and the first array among a list of
  candidate values.
\<close>

definition objectLike :: "json option \<Rightarrow> bool" where
  "objectLike v = (case v of Some (JObj kvs) \<Rightarrow> True | Some (JArr xs) \<Rightarrow> True | _ \<Rightarrow> False)"

fun firstArray :: "json option list \<Rightarrow> json list option" where
  "firstArray [] = None"
| "firstArray (Some (JArr xs) # rest) = Some xs"
| "firstArray (v # rest) = firstArray rest"

subsection \<open>Example payloads\<close>

text \<open>
  A completed analysis (status succeeded, a company summary and one program), and the same
  payload whose introduction is an apology.
\<close>

definition completedResponse :: json where
  "completedResponse =
     JObj [(''status'', JStr ''succeeded''),
           (''response'', JObj [(''data'', JObj [(''content'', JObj [
              (''company_summary'', JObj [(''name'', JStr ''Acme'')]),
              (''programs_list'', JArr [JObj [(''program_name'', JStr ''X'')]])])])])]"

definition apologyContent :: json where
  "apologyContent =
     JObj [(''company_summary'', JObj [(''name'', JStr ''Acme'')]),
           (''programs_list'', JArr [JObj [(''program_name'', JStr ''X'')]]),
           (''introduction'', JStr ''I'm Sorry'')]"

definition apologyResponse :: json where
  "apologyResponse =
     JObj [(''status'', JStr ''succeeded''),
           (''response'', JObj [(''data'', JObj [(''content'', apologyContent)])])]"

section \<open>Plan normaliser (parsePlanData)\<close>

text \<open>
  \<^verbatim>\<open>String.prototype.toUpperCase\<close> on one 8-bit code unit: the letters a to z and the Latin-1
  small letters U+00E0 to U+00FE (without the division sign U+00F7) move down by 32, and the
  sharp s becomes \<^verbatim>\<open>SS\<close>. The capitals of the micro sign and of y with diaeresis lie outside
  the 8-bit range; the model leaves these two code units as they are.
\<close>

definition toUpperCase_char :: "char \<Rightarrow> string" where
  "toUpperCase_char c =
     (let n = (of_char c :: nat) in
      if (97 \<le> n \<and> n \<le> 122) \<or> (224 \<le> n \<and> n \<le> 246) \<or> (248 \<le> n \<and> n \<le> 254)
      then [char_of (n - 32)]
      else if n = 223 then ''SS''
      else [c])"

text \<open>
  \<^verbatim>\<open>extractCompanyName(domain?)\<close>: \<^verbatim>\<open>domain.split('.')[0]\<close> is the text before the first dot,
  \<^verbatim>\<open>charAt(0).toUpperCase() + slice(1)\<close> capitalises its first character.
\<close>

definition extractCompanyName :: "string option \<Rightarrow> string" where
  "extractCompanyName domain =
     (case domain of
        None \<Rightarrow> ''Unknown Company''
      | Some d \<Rightarrow>
          if d = [] then ''Unknown Company''
          else (case takeWhile (\<lambda>c. c \<noteq> CHR ''.'') d of
                  [] \<Rightarrow> []
                | c # cs \<Rightarrow> toUpperCase_char c @ cs))"

text \<open>
  The summary record. The fields the parser copies from the payload keep whatever JSON value
  the payload holds; \<^verbatim>\<open>industry\<close> and the fields after it are undefined in the fallback summary.
\<close>

record CompanySummary =
  name :: json
  website :: json
  activities :: json
  target :: json
  industry :: "json option"
  target_audience :: "json option"
  nb_employees :: "json option"
  business_model :: "json option"
  linkedin_scrape_status :: "json option"
  customer_lifecycle_key_steps :: "json option"

text \<open>\<^verbatim>\<open>domain || 'Unknown'\<close>\<close>

definition domainOrUnknown :: "string option \<Rightarrow> json" where
  "domainOrUnknown domain =
     (case domain of None \<Rightarrow> JStr ''Unknown'' | Some d \<Rightarrow> if d = [] then JStr ''Unknown'' else JStr d)"

text \<open>
  \<^verbatim>\<open>parseCompanySummary(data, domain)\<close>: the fallback summary when the data is missing, falsy or
  not an object; otherwise every field is a chain of \<^verbatim>\<open>||\<close> over its alternate keys.
\<close>

definition parseCompanySummary :: "json option \<Rightarrow> string option \<Rightarrow> CompanySummary" where
  "parseCompanySummary data domain =
     (case data of
        None \<Rightarrow>
          \<lparr>name = JStr (extractCompanyName domain), website = domainOrUnknown domain,
           activities = JStr ''Not specified'', target = JStr ''Not specified'',
           industry = None, target_audience = None, nb_employees = None, business_model = None,
           linkedin_scrape_status = None, customer_lifecycle_key_steps = None\<rparr>
      | Some d \<Rightarrow>
          if \<not> truthy d \<or> \<not> typeof_object d then
            \<lparr>name = JStr (extractCompanyName domain), website = domainOrUnknown domain,
             activities = JStr ''Not specified'', target = JStr ''Not specified'',
             industry = None, target_audience = None, nb_employees = None, business_model = None,
             linkedin_scrape_status = None, customer_lifecycle_key_steps = None\<rparr>
          else
            (let name = jor_default (getp d ''name'') (JStr (extractCompanyName domain));
                 website = jor_default (getp d ''website'') (domainOrUnknown domain);
                 activities =
                   jor_default (jor (getp d ''activities'') (getp d ''industry''))
                     (JStr ''Not specified'');
                 target =
                   jor_default (jor (getp d ''target'') (getp d ''target_audience''))
                     (JStr ''Not specified'');
                 industry = jor_default (getp d ''industry'') activities;
                 targetAudience = jor_default (getp d ''target_audience'') target
             in \<lparr>name = name, website = website, activities = activities, target = target,
                 industry = Some industry, target_audience = Some targetAudience,
                 nb_employees = getp d ''nb_employees'',
                 business_model = getp d ''business_model'',
                 linkedin_scrape_status = getp d ''linkedin_scrape_status'',
                 customer_lifecycle_key_steps = getp d ''customer_lifecycle_key_steps''\<rparr>))"


text \<open>An item of the plan; \<^verbatim>\<open>scenarios\<close> is only set by the details pass.\<close>

record MarketingProgram =
  program_name :: json
  target :: json
  objective :: json
  kpi :: json
  description :: json
  scenarios :: "json option"

text \<open>
  What the parser can throw: the error it raises itself when no content object is found, and
  the \<^verbatim>\<open>TypeError\<close> of reading a property of \<^verbatim>\<open>null\<close>.
\<close>

datatype error = InvalidContent | TypeError

text \<open>\<^verbatim>\<open>parseInt(digits, 10)\<close> on a non-empty string of decimal digits.\<close>

definition parse_nat :: "string \<Rightarrow> nat" where
  "parse_nat ds = foldl (\<lambda>acc c. 10 * acc + (of_char c - 48)) 0 ds"

text \<open>
  The callback of \<^verbatim>\<open>data.map((program, index) => ...)\<close>: reading \<^verbatim>\<open>program.program_name\<close> throws
  when the entry is \<^verbatim>\<open>null\<close>.
\<close>

definition mkProgram :: "nat \<Rightarrow> json \<Rightarrow> error + MarketingProgram" where
  "mkProgram index program =
     (if program = JNull then Inl TypeError
      else Inr \<lparr>program_name =
                  jor_default (jor (getp program ''program_name'') (getp program ''name''))
                    (JStr (''Program '' @ show_nat (index + 1))),
                target = jor_default (getp program ''target'') (JStr ''Not specified''),
                objective = jor_default (getp program ''objective'') (JStr ''Not specified''),
                kpi = jor_default (getp program ''kpi'') (JStr []),
                description = jor_default (getp program ''description'') (JStr []),
                scenarios = None\<rparr>)"

fun mapPrograms :: "nat \<Rightarrow> json list \<Rightarrow> error + MarketingProgram list" where
  "mapPrograms index [] = Inr []"
| "mapPrograms index (program # rest) =
     (case mkProgram index program of
        Inl e \<Rightarrow> Inl e
      | Inr m \<Rightarrow>
          (case mapPrograms (Suc index) rest of
             Inl e \<Rightarrow> Inl e
           | Inr ms \<Rightarrow> Inr (m # ms)))"

definition placeholderProgram :: MarketingProgram where
  "placeholderProgram =
     \<lparr>program_name = JStr ''Marketing Program'', target = JStr ''Not specified'',
      objective = JStr ''Not specified'', kpi = JStr [],
      description = JStr ''No program details available'', scenarios = None\<rparr>"

text \<open>
  One step of \<^verbatim>\<open>detailsKeys.forEach\<close>: the number in the key selects the program (1-based);
  a key whose number is 0 or beyond the list is skipped; a truthy name in the details replaces
  the program name and truthy scenarios are attached.
\<close>

definition applyDetails :: "json \<Rightarrow> MarketingProgram list \<Rightarrow> string \<Rightarrow> MarketingProgram list" where
  "applyDetails allContentData programs detailKey =
     (let programIndex = int (parse_nat (takeWhile isDigit (drop 8 detailKey))) - 1 in
      if 0 \<le> programIndex \<and> programIndex < int (length programs) then
        (case getp allContentData detailKey of
           None \<Rightarrow> programs
         | Some details \<Rightarrow>
             if truthy details \<and> typeof_object details then
               (let i = nat programIndex;
                    named =
                      (case jor (getp details ''program_name'') (getp details ''name'') of
                         None \<Rightarrow> programs
                       | Some n \<Rightarrow>
                           if truthy n then programs[i := (programs ! i)\<lparr>program_name := n\<rparr>]
                           else programs)
                in (case getp details ''scenarios'' of
                      None \<Rightarrow> named
                    | Some sc \<Rightarrow>
                        if truthy sc then named[i := (named ! i)\<lparr>scenarios := Some sc\<rparr>]
                        else named))
             else programs)
      else programs)"

text \<open>
  \<^verbatim>\<open>parsePrograms(data, allContentData)\<close> in its four steps: the early return of an empty
  array when there is no data, the base list from an array or from the values of an object,
  the placeholder when that list is empty, and the details of all \<^verbatim>\<open>program_N_details\<close> keys
  in sorted order.
\<close>

definition basePrograms :: "json \<Rightarrow> error + MarketingProgram list" where
  "basePrograms d =
     (case d of
        JArr xs \<Rightarrow> mapPrograms 0 xs
      | JObj kvs \<Rightarrow> mapPrograms 0 (map snd kvs)
      | _ \<Rightarrow> Inr [])"

definition orPlaceholder :: "MarketingProgram list \<Rightarrow> MarketingProgram list" where
  "orPlaceholder programs = (if length programs = 0 then [placeholderProgram] else programs)"

definition applyAllDetails :: "json option \<Rightarrow> MarketingProgram list \<Rightarrow> MarketingProgram list" where
  "applyAllDetails allContentData programs =
     (case allContentData of
        None \<Rightarrow> programs
      | Some c \<Rightarrow>
          if truthy c \<and> typeof_object c
          then foldl (applyDetails c) programs (sort (filter isProgramDetailsKey (objectKeys c)))
          else programs)"

definition parsePrograms :: "json option \<Rightarrow> json option \<Rightarrow> error + MarketingProgram list" where
  "parsePrograms data allContentData =
     (case data of
        None \<Rightarrow> Inr []
      | Some d \<Rightarrow>
          if \<not> truthy d then Inr []
          else
            (case basePrograms d of
               Inl e \<Rightarrow> Inl e
             | Inr programs \<Rightarrow> Inr (applyAllDetails allContentData (orPlaceholder programs))))"

text \<open>
  \<^verbatim>\<open>getNestedValue(obj, pathOptions)\<close>: the first path all of whose keys can be followed
  (\<^verbatim>\<open>key in current\<close> on an object; none of the keys used is a property of an array), with the
  path; \<^verbatim>\<open>null\<close> and the empty path when there is none.
\<close>

fun follow :: "json \<Rightarrow> string list \<Rightarrow> json option" where
  "follow current [] = Some current"
| "follow (JObj kvs) (key # path) =
     (case map_of kvs key of None \<Rightarrow> None | Some v \<Rightarrow> follow v path)"
| "follow current (key # path) = None"

fun getNestedValue :: "json \<Rightarrow> string list list \<Rightarrow> json \<times> string list" where
  "getNestedValue obj [] = (JNull, [])"
| "getNestedValue obj (path # pathOptions) =
     (case follow obj path of
        Some v \<Rightarrow> (v, path)
      | None \<Rightarrow> getNestedValue obj pathOptions)"

definition contentPaths :: "string list list" where
  "contentPaths =
     [ [''response'', ''data'', ''content''],
       [''content''],
       [''response'', ''data'', ''content'', ''json_response''],
       [''content'', ''json_response''],
       [] ]"

text \<open>\<^verbatim>\<open>path.join(sep)\<close>\<close>

fun join_with :: "string \<Rightarrow> string list \<Rightarrow> string" where
  "join_with sep [] = []"
| "join_with sep [x] = x"
| "join_with sep (x # y # ys) = x @ sep @ join_with sep (y # ys)"

record RawContentStructure =
  contentKeys :: "string list"
  programDetailKeys :: "string list"
  contentPath :: string

record MarketingPlan =
  company_summary :: CompanySummary
  programs_list :: "MarketingProgram list"
  introduction :: json
  tools_used :: json
  conclusion :: json
  how_brevo_helps_you :: "json list"
  raw_content_structure :: RawContentStructure
  conversation_id :: "json option"

text \<open>
  \<^verbatim>\<open>parsePlanData(responseData, domain)\<close>: \<^verbatim>\<open>null\<close> for a missing payload, an error when the
  located content is not an object or when a program entry is \<^verbatim>\<open>null\<close>, the plan otherwise.
\<close>

definition parsePlanData :: "json option \<Rightarrow> string option \<Rightarrow> error + MarketingPlan option" where
  "parsePlanData responseData domain =
     (case responseData of
        None \<Rightarrow> Inr None
      | Some rd \<Rightarrow>
          if \<not> truthy rd then Inr None
          else
            (let (content, path) = getNestedValue rd contentPaths in
             if \<not> truthy content \<or> \<not> typeof_object content then Inl InvalidContent
             else
               (case parsePrograms (getp content ''programs_list'') (Some content) of
                  Inl e \<Rightarrow> Inl e
                | Inr programsList \<Rightarrow>
                    (let conversationId =
                           jor (jor (optp (optp (optp (getp rd ''response'') ''data'') ''metadata'')
                                       ''conversation_id'')
                                    (optp (getp rd ''metadata'') ''conversation_id''))
                               (getp rd ''conversation_id'')
                     in Inr (Some
                          \<lparr>company_summary =
                             parseCompanySummary (getp content ''company_summary'') domain,
                           programs_list = programsList,
                           introduction = jor_default (getp content ''introduction'') (JStr []),
                           tools_used = jor_default (getp content ''tools_used'') (JStr []),
                           conclusion = jor_default (getp content ''conclusion'') (JStr []),
                           how_brevo_helps_you =
                             (case getp content ''how_brevo_helps_you'' of
                                Some (JArr xs) \<Rightarrow> xs
                              | _ \<Rightarrow> []),
                           raw_content_structure =
                             \<lparr>contentKeys = objectKeys content,
                              programDetailKeys =
                                filter (\<lambda>k. str_includes k ''program_'' \<and> str_includes k ''details'')
                                  (objectKeys content),
                              contentPath = join_with ''.'' path\<rparr>,
                           conversation_id =
                             (if truthy_opt conversationId then conversationId else None)\<rparr>)))))"

subsection \<open>Notions the claims about the normaliser are stated with\<close>

text \<open>
  The first truthy value of a list of alternates; the first alternate that is truthy and not
  the literal \<^verbatim>\<open>Not specified\<close>; the content subtree the parser locates.
\<close>

fun firstTruthy :: "json option list \<Rightarrow> json \<Rightarrow> json" where
  "firstTruthy [] d = d"
| "firstTruthy (None # rest) d = firstTruthy rest d"
| "firstTruthy (Some v # rest) d = (if truthy v then v else firstTruthy rest d)"

fun firstQualifying :: "json option list \<Rightarrow> json \<Rightarrow> json" where
  "firstQualifying [] d = d"
| "firstQualifying (None # rest) d = firstQualifying rest d"
| "firstQualifying (Some v # rest) d =
     (if truthy v \<and> v \<noteq> JStr ''Not specified'' then v else firstQualifying rest d)"

definition locateContent :: "json \<Rightarrow> json" where
  "locateContent raw = fst (getNestedValue raw contentPaths)"

text \<open>
  A payload whose \<^verbatim>\<open>programs_list\<close> is the empty map, and one that has a summary and no
  \<^verbatim>\<open>programs_list\<close>.
\<close>

definition scenarioD :: json where
  "scenarioD = JObj [(''content'', JObj [(''programs_list'', JObj [])])]"

definition noProgramsPayload :: json where
  "noProgramsPayload = JObj [(''content'', JObj [(''company_summary'', JObj [(''name'', JStr ''Acme'')])])]"

section \<open>Terminal-error classification (pollingUtils)\<close>

text \<open>
  \<^verbatim>\<open>isInvalidConversationIdError(errorMessage?)\<close> and \<^verbatim>\<open>shouldStopPolling(errorMessage,
  consecutiveErrors)\<close>, with the pattern list of the source.
\<close>

definition isInvalidConversationIdError :: "string option \<Rightarrow> bool" where
  "isInvalidConversationIdError errorMessage =
     (case errorMessage of
        None \<Rightarrow> False
      | Some m \<Rightarrow>
          if m = [] then False
          else list_ex (\<lambda>pattern. str_includes (toLowerCase m) (toLowerCase pattern))
                 [''no agent response'', ''no agent response found'', ''404'', ''conversation id'',
                  ''invalid'', ''expired'', ''not found'', ''conversation not found'',
                  ''does not exist'', ''couldn't process''])"

definition shouldStopPolling :: "string \<Rightarrow> int \<Rightarrow> bool" where
  "shouldStopPolling errorMessage consecutiveErrors =
     (if str_includes (toLowerCase errorMessage) ''no agent response found''
      then consecutiveErrors \<ge> 1
      else if isInvalidConversationIdError (Some errorMessage) then True
      else False)"

section \<open>Persistence (marketingPlanService)\<close>

text \<open>
  A row handed to \<^verbatim>\<open>supabase.from('marketing_plans').insert\<close>. The storage engine is outside
  the repository: the model keeps the list of rows handed to it, in order. The language comes
  from the browser (\<^verbatim>\<open>getUserLanguage()\<close>) and the time stamp from its clock.
\<close>

record Row =
  company_domain :: string
  row_email :: string
  form_data :: json
  user_language :: string

record Browser =
  clock :: string
  language :: string

text \<open>
  \<^verbatim>\<open>saveMarketingPlan(companyDomain, email, planData)\<close>: nothing is written when the domain or
  the e-mail address is missing; otherwise one row is inserted, carrying a deep copy of the
  plan data (the same JSON value). The function catches every error and only reports it in
  its result, which the caller below does not read.
\<close>

definition saveMarketingPlan ::
    "Browser \<Rightarrow> string option \<Rightarrow> string \<Rightarrow> json \<Rightarrow> Row list \<Rightarrow> Row list" where
  "saveMarketingPlan browser companyDomain email planData inserts =
     (case companyDomain of
        None \<Rightarrow> inserts
      | Some d \<Rightarrow>
          if d = [] \<or> email = [] then inserts
          else inserts @ [\<lparr>company_domain = d, row_email = email, form_data = planData,
                            user_language = language browser\<rparr>])"

section \<open>The plan hook (useMarketingPlanData)\<close>

text \<open>
  The state and refs of the hook that the success path and the polling callback read or
  write, the \<^verbatim>\<open>email\<close> prop, the rows written and the navigations requested. A state setter
  takes effect at once; messages, toasts and logs are left out.
\<close>

record PlanHook =
  planData :: "MarketingPlan option"
  hasValidPlan :: bool
  isLoading :: bool
  continuePolling :: bool
  hookError :: "string option"
  isSaving :: bool
  pollCounter :: nat
  responseStatus :: "json option"
  autoNavigating :: bool
  latestDomainRef :: "string option"
  conversationIdRef :: "string option"
  hasNavigatedRef :: bool
  dataValidationPassedRef :: bool
  minimumPollingTimeReachedRef :: bool
  consecutive404ErrorsRef :: nat
  email :: string
  inserts :: "Row list"
  navigations :: "string list"

text \<open>
  Object spread: \<^verbatim>\<open>{...a, k: v}\<close> keeps the members of \<^verbatim>\<open>a\<close> and sets \<^verbatim>\<open>k\<close>; spreading a
  value that is not an object, array or string contributes nothing.
\<close>

fun set_member :: "(string \<times> json) list \<Rightarrow> string \<Rightarrow> json \<Rightarrow> (string \<times> json) list" where
  "set_member [] k v = [(k, v)]"
| "set_member ((k', v') # kvs) k v =
     (if k' = k then (k, v) # kvs else (k', v') # set_member kvs k v)"

fun members :: "json option \<Rightarrow> (string \<times> json) list" where
  "members (Some (JObj kvs)) = kvs"
| "members (Some (JArr xs)) = zip (map show_nat [0..<length xs]) xs"
| "members (Some (JStr s)) = zip (map show_nat [0..<length s]) (map (\<lambda>c. JStr [c]) s)"
| "members v = []"

text \<open>
  The value saved: \<^verbatim>\<open>{...rawData.response.data, metadata: {...rawData.metadata,
  conversation_id, generated_at}}\<close>. An undefined conversation id leaves no member behind.
\<close>

definition dataToSave :: "Browser \<Rightarrow> string option \<Rightarrow> json \<Rightarrow> json \<Rightarrow> json" where
  "dataToSave browser conversationId rawData response =
     JObj (set_member (members (getp response ''data'')) ''metadata''
       (JObj (set_member
                (case conversationId of
                   None \<Rightarrow> filter (\<lambda>(k, v). k \<noteq> ''conversation_id'')
                             (members (getp rawData ''metadata''))
                 | Some cid \<Rightarrow>
                     set_member (members (getp rawData ''metadata'')) ''conversation_id'' (JStr cid))
                ''generated_at'' (JStr (clock browser)))))"

text \<open>
  \<^verbatim>\<open>handleSuccessfulPlan(parsedData, rawData)\<close> in the order of the source: the latch
  \<^verbatim>\<open>hasNavigatedRef\<close>, the two validations, the save when a domain is known (reading
  \<^verbatim>\<open>rawData.response.data\<close> throws when \<^verbatim>\<open>rawData.response\<close> is missing; the \<^verbatim>\<open>catch\<close> block
  swallows it), the success states, the navigation that sets the latch, and the \<^verbatim>\<open>finally\<close>
  block. The awaited save is one step.
\<close>

definition domainPresent :: "PlanHook \<Rightarrow> bool" where
  "domainPresent h = (case latestDomainRef h of None \<Rightarrow> False | Some d \<Rightarrow> d \<noteq> [])"

definition saveStep :: "Browser \<Rightarrow> json \<Rightarrow> PlanHook \<Rightarrow> error + PlanHook" where
  "saveStep browser rawData h =
     (if domainPresent h then
        (case getp rawData ''response'' of
           None \<Rightarrow> Inl TypeError
         | Some JNull \<Rightarrow> Inl TypeError
         | Some response \<Rightarrow>
             Inr (h\<lparr>inserts :=
                      saveMarketingPlan browser (latestDomainRef h) (email h)
                        (dataToSave browser (conversationIdRef h) rawData response)
                        (inserts h)\<rparr>))
      else Inr h)"

definition navigateStep :: "PlanHook \<Rightarrow> PlanHook" where
  "navigateStep h =
     (if \<not> hasNavigatedRef h \<and> domainPresent h \<and> dataValidationPassedRef h \<and>
         minimumPollingTimeReachedRef h
      then h\<lparr>hasNavigatedRef := True,
              navigations := navigations h @
                [''/results/'' @ (case latestDomainRef h of None \<Rightarrow> [] | Some d \<Rightarrow> d)]\<rparr>
      else h)"

definition handleSuccessfulPlan ::
    "Browser \<Rightarrow> MarketingPlan option \<Rightarrow> json \<Rightarrow> PlanHook \<Rightarrow> PlanHook" where
  "handleSuccessfulPlan browser parsedData rawData h =
     (if hasNavigatedRef h then h
      else
        (case parsedData of
           None \<Rightarrow> h\<lparr>dataValidationPassedRef := False\<rparr>
         | Some plan \<Rightarrow>
             if programs_list plan = [] then h\<lparr>dataValidationPassedRef := False\<rparr>
             else
               (let h1 = h\<lparr>dataValidationPassedRef := True, isSaving := True\<rparr>;
                    h2 =
                      (case saveStep browser rawData h1 of
                         Inl e \<Rightarrow> h1\<lparr>isSaving := False\<rparr>
                       | Inr saved \<Rightarrow>
                           navigateStep
                             (saved\<lparr>planData := Some plan, hasValidPlan := True,
                                    isLoading := False, continuePolling := False,
                                    hookError := None\<rparr>))
                in h2\<lparr>isSaving := \<not> minimumPollingTimeReachedRef h2\<rparr>)))"

text \<open>\<^verbatim>\<open>String(v)\<close>, which \<^verbatim>\<open>new Error(v)\<close> applies to its argument.\<close>

fun toStringJS :: "json \<Rightarrow> string" where
  "toStringJS JNull = ''null''"
| "toStringJS (JBool b) = (if b then ''true'' else ''false'')"
| "toStringJS (JNum n) = show_int n"
| "toStringJS (JStr s) = s"
| "toStringJS (JArr xs) =
     join_with '','' (map (\<lambda>x. if x = JNull then [] else toStringJS x) xs)"
| "toStringJS (JObj kvs) = ''[object Object]''"

text \<open>\<^verbatim>\<open>response.response?.error || 'Polling failed'\<close> as an error message.\<close>

definition failedMessage :: "json \<Rightarrow> string" where
  "failedMessage response =
     (case optp (getp response ''response'') ''error'' of
        None \<Rightarrow> ''Polling failed''
      | Some e \<Rightarrow> if truthy e then toStringJS e else ''Polling failed'')"

text \<open>The messages of the errors the parser throws.\<close>

fun thrownMessage :: "error \<Rightarrow> string" where
  "thrownMessage InvalidContent = ''Invalid content structure or missing content''"
| "thrownMessage TypeError = ''Cannot read properties of null (reading 'program_name')''"

text \<open>
  What the polling callback returns: \<^verbatim>\<open>null\<close>, the response, or the object that asks for
  the navigation back to the input page.
\<close>

datatype PollReturn = RetNull | RetResponse json | RetInvalidConversation string

definition notFoundErrorThreshold :: nat where
  "notFoundErrorThreshold = 2"

definition isNotFoundError :: "string \<Rightarrow> bool" where
  "isNotFoundError errorMessage =
     (str_includes (toLowerCase errorMessage) ''no agent response'' \<or>
      str_includes errorMessage ''404'')"

definition orDefault :: "string \<Rightarrow> string \<Rightarrow> string" where
  "orDefault s d = (if s = [] then d else s)"

definition formattedErrorMsg :: "string option \<Rightarrow> string \<Rightarrow> string" where
  "formattedErrorMsg domain currentConversationId =
     ''We couldn't generate a marketing plan for '' @ [CHR 0x22] @
     (case domain of None \<Rightarrow> ''undefined'' | Some d \<Rightarrow> d) @ [CHR 0x22] @
     ''. The conversation ID '' @ currentConversationId @
     '' appears to be invalid. Please try with a different domain.''"

text \<open>The \<^verbatim>\<open>catch\<close> block of the polling callback.\<close>

definition pollingCatch :: "string \<Rightarrow> string \<Rightarrow> PlanHook \<Rightarrow> PlanHook \<times> PollReturn" where
  "pollingCatch currentConversationId errorMessage h =
     (if isNotFoundError errorMessage then
        (let h1 = h\<lparr>consecutive404ErrorsRef := consecutive404ErrorsRef h + 1\<rparr> in
         if consecutive404ErrorsRef h1 \<ge> notFoundErrorThreshold then
           (let msg = formattedErrorMsg (latestDomainRef h1) currentConversationId;
                h2 = h1\<lparr>hookError := Some msg, continuePolling := False\<rparr>
            in if \<not> autoNavigating h2
               then (h2\<lparr>autoNavigating := True\<rparr>, RetInvalidConversation msg)
               else (h2, RetNull))
         else
           (h1\<lparr>hookError := Some (orDefault errorMessage ''Failed to retrieve marketing plan'')\<rparr>,
            RetNull))
      else
        (h\<lparr>consecutive404ErrorsRef := 0,
           hookError := Some (orDefault errorMessage ''Failed to retrieve marketing plan'')\<rparr>,
         RetNull))"

text \<open>
  The polling callback handed to \<^verbatim>\<open>usePolling\<close>. The outcome of \<^verbatim>\<open>getAnalysisAnswer\<close> is
  either the message of the error it rejects with or the response it resolves to.
\<close>

definition pollingCallback ::
    "Browser \<Rightarrow> string + json \<Rightarrow> PlanHook \<Rightarrow> PlanHook \<times> PollReturn" where
  "pollingCallback browser outcome h =
     (case conversationIdRef h of
        None \<Rightarrow> (h, RetNull)
      | Some currentConversationId \<Rightarrow>
          if currentConversationId = [] then (h, RetNull)
          else
            (let h1 = h\<lparr>pollCounter := pollCounter h + 1\<rparr> in
             case outcome of
               Inl errorMessage \<Rightarrow> pollingCatch currentConversationId errorMessage h1
             | Inr response \<Rightarrow>
                 (let h2 = h1\<lparr>consecutive404ErrorsRef := 0, responseStatus := Some response\<rparr> in
                  if getp response ''status'' = Some (JStr ''failed'')
                  then pollingCatch currentConversationId (failedMessage response) h2
                  else if isAnalysisComplete response then
                    (case parsePlanData (optp (getp response ''response'') ''data'') None of
                       Inl e \<Rightarrow> pollingCatch currentConversationId (thrownMessage e) h2
                     | Inr None \<Rightarrow>
                         pollingCatch currentConversationId
                           ''Generated plan data is empty or invalid'' h2
                     | Inr (Some plan) \<Rightarrow>
                         (let h3 = handleSuccessfulPlan browser (Some plan) response h2 in
                          (h3, if minimumPollingTimeReachedRef h3 \<and> dataValidationPassedRef h3
                               then RetResponse response else RetNull)))
                  else (h2, RetResponse response))))"






subsection \<open>Notions the claim about the latch is stated with\<close>





subsection \<open>Example sessions\<close>

text \<open>
  A session right after mount, with its domain, conversation id and e-mail address; a
  browser; and the plan parsed from the completed example payload.
\<close>

definition newSession :: "string \<Rightarrow> string \<Rightarrow> string \<Rightarrow> PlanHook" where
  "newSession domain conversationId mail =
     \<lparr>planData = None, hasValidPlan = False, isLoading = True, continuePolling = True,
      hookError = None, isSaving = False, pollCounter = 0, responseStatus = None,
      autoNavigating = False, latestDomainRef = Some domain,
      conversationIdRef = Some conversationId, hasNavigatedRef = False,
      dataValidationPassedRef = False, minimumPollingTimeReachedRef = False,
      consecutive404ErrorsRef = 0, email = mail, inserts = [], navigations = []\<rparr>"

definition aBrowser :: Browser where
  "aBrowser = \<lparr>clock = ''2025-01-01T00:00:00.000Z'', language = ''en''\<rparr>"

definition acmePlan :: MarketingPlan where
  "acmePlan =
     \<lparr>company_summary =
        \<lparr>name = JStr ''Acme'', website = JStr ''Unknown'',
         activities = JStr ''Not specified'', target = JStr ''Not specified'',
         industry = Some (JStr ''Not specified''), target_audience = Some (JStr ''Not specified''),
         nb_employees = None, business_model = None, linkedin_scrape_status = None,
         customer_lifecycle_key_steps = None\<rparr>,
      programs_list =
        [\<lparr>program_name = JStr ''X'', target = JStr ''Not specified'',
          objective = JStr ''Not specified'', kpi = JStr [], description = JStr [],
          scenarios = None\<rparr>],
      introduction = JStr [], tools_used = JStr [], conclusion = JStr [],
      how_brevo_helps_you = [],
      raw_content_structure =
        \<lparr>contentKeys = [''company_summary'', ''programs_list''], programDetailKeys = [],
         contentPath = ''content''\<rparr>,
      conversation_id = None\<rparr>"

section \<open>Polling scheduler (usePolling)\<close>

text \<open>
  The options of the hook: the polling function answers the i-th call with a result or with
  the message of a rejection; a callback is either supplied or not; the caller's
  \<^verbatim>\<open>shouldContinuePolling\<close> answers its i-th call. The interval only sets the length of a
  wait and is left out.
\<close>

datatype PollStatus = StatusIdle | StatusPolling | StatusSuccess | StatusError | StatusTimeout

datatype Timer = InitialTimer | NextTimer nat

record PollingOptions =
  pollingFn :: "nat \<Rightarrow> string + json"
  maxAttempts :: "nat option"
  initialDelay :: "nat option"
  onSuccess :: bool
  onError :: bool
  onMaxAttemptsReached :: bool
  shouldContinuePolling :: "(nat \<Rightarrow> bool) option"

text \<open>
  The React state of the hook, its refs, and a record of the calls made to the polling
  function and to the callbacks. \<^verbatim>\<open>timerRef\<close> holds the pending timer: the one of the initial
  delay or the one that will run the given attempt. Time stamps are left out.
\<close>

record Poller =
  isPolling :: bool
  attempt :: nat
  data :: "json option"
  pollError :: "string option"
  status :: PollStatus
  isMountedRef :: bool
  timerRef :: "Timer option"
  isActivePollingRef :: bool
  hasSuccessfulResponseRef :: bool
  isLocked :: bool
  lastSuccessDataRef :: "json option"
  pollHistoryRef :: "nat list"
  fetchCalls :: nat
  continueCalls :: nat
  successCalls :: "json list"
  errorCalls :: "string list"
  maxAttemptsReachedCalls :: nat

text \<open>The inline test \<^verbatim>\<open>isCompletedResponse\<close> of \<^verbatim>\<open>executePoll\<close>.\<close>

definition isCompletedResponse :: "json \<Rightarrow> bool" where
  "isCompletedResponse typedResult =
     (truthy typedResult \<and> typeof_object typedResult \<and>
      ((getp typedResult ''status'' = Some (JStr ''succeeded'') \<and>
        optp (getp typedResult ''response'') ''state'' = Some (JStr ''completed'')) \<or>
       optp (getp typedResult ''response'') ''state'' = Some (JStr ''completed'') \<or>
       (case responseContent typedResult of
          None \<Rightarrow> False
        | Some content \<Rightarrow> truthy content \<and> length (objectKeys content) > 0)))"

text \<open>
  \<^verbatim>\<open>shouldContinuePolling()\<close> when supplied, \<^verbatim>\<open>stopPolling\<close>, the test
  \<^verbatim>\<open>maxAttempts && attempt >= maxAttempts\<close>, the transition to \<^verbatim>\<open>timeout\<close>, and the scheduling of
  the next attempt.
\<close>

definition askContinue :: "PollingOptions \<Rightarrow> Poller \<Rightarrow> bool \<times> Poller" where
  "askContinue opts p =
     (case shouldContinuePolling opts of
        None \<Rightarrow> (True, p)
      | Some f \<Rightarrow> (f (continueCalls p), p\<lparr>continueCalls := continueCalls p + 1\<rparr>))"

definition stopPolling :: "Poller \<Rightarrow> Poller" where
  "stopPolling p =
     (let p1 = p\<lparr>timerRef := None\<rparr>;
          p2 = (if isMountedRef p1
                then p1\<lparr>isPolling := False,
                        status := (if hasSuccessfulResponseRef p1 then StatusSuccess
                                   else StatusIdle)\<rparr>
                else p1)
      in p2\<lparr>isActivePollingRef := False, isLocked := False\<rparr>)"

definition maxAttemptsHit :: "PollingOptions \<Rightarrow> nat \<Rightarrow> bool" where
  "maxAttemptsHit opts n =
     (case maxAttempts opts of None \<Rightarrow> False | Some m \<Rightarrow> m \<noteq> 0 \<and> n \<ge> m)"

definition toTimeout :: "PollingOptions \<Rightarrow> Poller \<Rightarrow> Poller" where
  "toTimeout opts p =
     p\<lparr>isPolling := False, status := StatusTimeout,
       maxAttemptsReachedCalls :=
         (if onMaxAttemptsReached opts then maxAttemptsReachedCalls p + 1
          else maxAttemptsReachedCalls p),
       isActivePollingRef := False, isLocked := False\<rparr>"

definition scheduleNext :: "nat \<Rightarrow> Poller \<Rightarrow> Poller" where
  "scheduleNext n p =
     (if isActivePollingRef p \<and> isMountedRef p
      then p\<lparr>timerRef := Some (NextTimer (n + 1))\<rparr>
      else p\<lparr>isLocked := False\<rparr>)"

text \<open>
  \<^verbatim>\<open>executePoll(attempt)\<close>: the part after the polling function resolved, the \<^verbatim>\<open>catch\<close> block
  after it rejected, and the whole function. The awaited call is one step: nothing else runs
  in between.
\<close>

definition afterResult :: "PollingOptions \<Rightarrow> nat \<Rightarrow> json \<Rightarrow> Poller \<Rightarrow> Poller" where
  "afterResult opts n result p =
     (let completed = isCompletedResponse result;
          p1 = p\<lparr>lastSuccessDataRef := Some result,
                 hasSuccessfulResponseRef := (hasSuccessfulResponseRef p \<or> completed)\<rparr>
      in
        if isMountedRef p1 \<and> isActivePollingRef p1 then
          (let p2 = p1\<lparr>attempt := n, data := Some result,
                       status := (if completed then StatusSuccess else StatusPolling)\<rparr>
           in
             if completed then
               p2\<lparr>successCalls := (if onSuccess opts then successCalls p2 @ [result]
                                     else successCalls p2),
                   isActivePollingRef := False, isLocked := False\<rparr>
             else if maxAttemptsHit opts n then
               (if isMountedRef p2 \<and> isActivePollingRef p2 then toTimeout opts p2 else p2)
             else
               (case askContinue opts p2 of
                  (go, p3) \<Rightarrow> if \<not> go then stopPolling p3 else scheduleNext n p3))
        else p1\<lparr>isLocked := False\<rparr>)"

definition afterError :: "PollingOptions \<Rightarrow> nat \<Rightarrow> string \<Rightarrow> Poller \<Rightarrow> Poller" where
  "afterError opts n err p =
     (if isMountedRef p \<and> isActivePollingRef p then
        (let p1 = p\<lparr>attempt := n, pollError := Some err, status := StatusError,
                     errorCalls := (if onError opts then errorCalls p @ [err]
                                    else errorCalls p)\<rparr>
         in
           if maxAttemptsHit opts n then
             (if isMountedRef p1 then toTimeout opts p1 else p1)
           else scheduleNext n p1)
      else p\<lparr>isLocked := False\<rparr>)"

definition executePoll :: "PollingOptions \<Rightarrow> nat \<Rightarrow> Poller \<Rightarrow> Poller" where
  "executePoll opts n p =
     (if isLocked p then p
      else
        (let p1 = p\<lparr>isLocked := True\<rparr> in
         if \<not> isMountedRef p1 \<or> \<not> isActivePollingRef p1 then p1\<lparr>isLocked := False\<rparr>
         else
           (let p2 = p1\<lparr>pollHistoryRef := pollHistoryRef p1 @ [n]\<rparr> in
            case askContinue opts p2 of
              (go, p3) \<Rightarrow>
                if \<not> go then stopPolling p3
                else
                  (let p4 = p3\<lparr>fetchCalls := fetchCalls p3 + 1\<rparr> in
                   case pollingFn opts (fetchCalls p3) of
                     Inr result \<Rightarrow> afterResult opts n result p4
                   | Inl err \<Rightarrow> afterError opts n err p4))))"

text \<open>\<^verbatim>\<open>startPolling\<close>, and the callback of the pending timer.\<close>

definition startPolling :: "PollingOptions \<Rightarrow> Poller \<Rightarrow> Poller" where
  "startPolling opts p =
     (if isActivePollingRef p \<or> isLocked p then p
      else
        (let p1 = p\<lparr>timerRef := None, isActivePollingRef := True,
                     hasSuccessfulResponseRef := False, pollHistoryRef := [], isLocked := False,
                     isPolling := True, attempt := 0, data := None, pollError := None,
                     status := StatusPolling\<rparr>
         in
           if (case initialDelay opts of None \<Rightarrow> False | Some d \<Rightarrow> d > 0)
           then p1\<lparr>timerRef := Some InitialTimer\<rparr>
           else executePoll opts 1 p1))"

definition fireTimer :: "PollingOptions \<Rightarrow> Poller \<Rightarrow> Poller" where
  "fireTimer opts p =
     (case timerRef p of
        None \<Rightarrow> p
      | Some InitialTimer \<Rightarrow>
          (let p1 = p\<lparr>timerRef := None\<rparr> in
           if isMountedRef p1 \<and> isActivePollingRef p1 then executePoll opts 1 p1 else p1)
      | Some (NextTimer n) \<Rightarrow>
          (let p1 = p\<lparr>timerRef := None, isLocked := False\<rparr> in
           if isActivePollingRef p1 \<and> isMountedRef p1 then executePoll opts n p1 else p1))"

text \<open>
  A mounted hook before polling starts, and the state after \<^verbatim>\<open>startPolling\<close> and \<open>k\<close> timer
  callbacks.
\<close>

definition mountedPoller :: Poller where
  "mountedPoller =
     \<lparr>isPolling = False, attempt = 0, data = None, pollError = None, status = StatusIdle,
      isMountedRef = True, timerRef = None, isActivePollingRef = False,
      hasSuccessfulResponseRef = False, isLocked = False, lastSuccessDataRef = None,
      pollHistoryRef = [], fetchCalls = 0, continueCalls = 0, successCalls = [],
      errorCalls = [], maxAttemptsReachedCalls = 0\<rparr>"

definition run :: "PollingOptions \<Rightarrow> nat \<Rightarrow> Poller" where
  "run opts k = (fireTimer opts ^^ k) (startPolling opts mountedPoller)"

subsection \<open>Notions the claim about the scheduler is stated with\<close>

text \<open>
  The polling function never yields a response the scheduler takes as completed; the
  caller never asks to stop; the number of timer callbacks before the first attempt; and the
  three kinds of state a run without completion goes through.
\<close>

definition neverComplete :: "PollingOptions \<Rightarrow> bool" where
  "neverComplete opts =
     (\<forall>i. case pollingFn opts i of Inr r \<Rightarrow> \<not> isCompletedResponse r | Inl e \<Rightarrow> True)"

definition alwaysContinue :: "PollingOptions \<Rightarrow> bool" where
  "alwaysContinue opts =
     (case shouldContinuePolling opts of None \<Rightarrow> True | Some f \<Rightarrow> \<forall>i. f i)"

definition startDelay :: "PollingOptions \<Rightarrow> nat" where
  "startDelay opts = (case initialDelay opts of None \<Rightarrow> 0 | Some d \<Rightarrow> if d > 0 then 1 else 0)"

definition fresh :: "nat \<Rightarrow> Poller \<Rightarrow> bool" where
  "fresh n p \<longleftrightarrow>
     isMountedRef p \<and> isActivePollingRef p \<and> \<not> isLocked p \<and> timerRef p = None \<and>
     Suc (fetchCalls p) = n \<and> maxAttemptsReachedCalls p = 0"

definition waiting :: "nat \<Rightarrow> Poller \<Rightarrow> bool" where
  "waiting n p \<longleftrightarrow>
     isMountedRef p \<and> isActivePollingRef p \<and> isLocked p \<and>
     timerRef p = Some (NextTimer (Suc n)) \<and> fetchCalls p = n \<and>
     maxAttemptsReachedCalls p = 0 \<and> status p \<noteq> StatusTimeout"

definition timedOut :: "nat \<Rightarrow> Poller \<Rightarrow> bool" where
  "timedOut m p \<longleftrightarrow>
     status p = StatusTimeout \<and> \<not> isPolling p \<and> maxAttemptsReachedCalls p = 1 \<and>
     fetchCalls p = m \<and> timerRef p = None \<and> \<not> isActivePollingRef p"

text \<open>A polling function that always answers \<^verbatim>\<open>{status: "running"}\<close>, with 30 attempts.\<close>

definition scenarioB :: PollingOptions where
  "scenarioB =
     \<lparr>pollingFn = (\<lambda>i. Inr (JObj [(''status'', JStr ''running'')])),
      maxAttempts = Some 30, initialDelay = None, onSuccess = True, onError = True,
      onMaxAttemptsReached = True, shouldContinuePolling = None\<rparr>"

section \<open>Verified properties\<close>

subsection \<open>Interval policy\<close>

text \<open>
  Claim C9. The interval policy returns 10000 ms for attempts 1 to 10, 20000 ms for attempts
  11 to 20 and 30000 ms for every attempt from 21 on; hence it is non-decreasing on attempts
  from 1 on, its value at attempt 1 is not greater than its value at attempt 11, and every
  attempt number at or below 0 yields the same value as attempt 1.
\<close>

theorem getProgressivePollingInterval_tiers:
  "(1 \<le> a \<and> a \<le> 10 \<longrightarrow> getProgressivePollingInterval a = 10000) \<and>
   (11 \<le> b \<and> b \<le> 20 \<longrightarrow> getProgressivePollingInterval b = 20000) \<and>
   (21 \<le> c \<longrightarrow> getProgressivePollingInterval c = 30000) \<and>
   (1 \<le> n \<and> n \<le> m \<longrightarrow> getProgressivePollingInterval n \<le> getProgressivePollingInterval m) \<and>
   getProgressivePollingInterval 1 \<le> getProgressivePollingInterval 11 \<and>
   (z \<le> 0 \<longrightarrow> getProgressivePollingInterval z = getProgressivePollingInterval 1)"
  by (simp add: getProgressivePollingInterval_def)

theorem getProgressivePollingInterval_tiers_witness:
  "getProgressivePollingInterval 5 = 10000 \<and>
   getProgressivePollingInterval 15 = 20000 \<and>
   getProgressivePollingInterval 25 = 30000 \<and>
   getProgressivePollingInterval 10 \<le> getProgressivePollingInterval 11 \<and>
   getProgressivePollingInterval 1 \<le> getProgressivePollingInterval 11 \<and>
   getProgressivePollingInterval (- 3) = getProgressivePollingInterval 1"
  using getProgressivePollingInterval_tiers [of 5 15 25 10 11 "- 3"] by simp

subsection \<open>Evaluating strings\<close>

lemma char_of_nat_bits:
  "char_of (n::nat) = Char (odd n) (odd (n div 2)) (odd (n div 4)) (odd (n div 8))
     (odd (n div 16)) (odd (n div 32)) (odd (n div 64)) (odd (n div 128))"
  by (simp add: char_of_def bit_iff_odd_drop_bit drop_bit_eq_div)

lemmas str_eval =
  normalizeDomain_service_def normalizeDomain_utils_def strip_www_def strip_protocol_def
  trim_def isWhiteSpace_def isLineTerminator_def toLowerCase_def toLowerCase_char_def
  char_of_nat_bits

subsection \<open>Key normalisation\<close>

lemma lower_idem: "toLowerCase_char (toLowerCase_char c) = toLowerCase_char c"
  by (auto simp: toLowerCase_char_def Let_def)

lemma lower_ws: "isWhiteSpace (toLowerCase_char c) = isWhiteSpace c"
  by (auto simp: toLowerCase_char_def Let_def isWhiteSpace_def)

lemma lower_slash: "toLowerCase_char c = CHR ''/'' \<longleftrightarrow> c = CHR ''/''"
  by (auto simp: toLowerCase_char_def Let_def char_of_eq_iff take_bit_eq_mod)

lemma lt_ws: "isLineTerminator c \<Longrightarrow> isWhiteSpace c"
  by (auto simp: isLineTerminator_def isWhiteSpace_def)

lemma trim_id: "\<forall>c\<in>set s. \<not> isWhiteSpace c \<Longrightarrow> trim s = s"
proof -
  assume h: "\<forall>c\<in>set s. \<not> isWhiteSpace c"
  have d: "dropWhile isWhiteSpace xs = xs" if "\<forall>c\<in>set xs. \<not> isWhiteSpace c" for xs
    using that by (cases xs) auto
  have a: "dropWhile isWhiteSpace s = s" using h by (rule d)
  have b: "dropWhile isWhiteSpace (rev s) = rev s" using h by (intro d) simp
  show ?thesis by (simp add: trim_def a b)
qed

lemma set_strip_protocol: "set (strip_protocol s) \<subseteq> set s"
  by (auto simp: strip_protocol_def dest: in_set_dropD)

lemma set_strip_www: "set (strip_www s) \<subseteq> set s"
  by (auto simp: strip_www_def dest: in_set_dropD)

lemma set_strip_path: "set (strip_path s) \<subseteq> set s"
  by (induction s) auto

lemma strip_path_no_slash:
  "\<forall>c\<in>set s. \<not> isLineTerminator c \<Longrightarrow> CHR ''/'' \<notin> set (strip_path s)"
  by (induction s) (auto simp: list_ex_iff)

lemma strip_path_id: "CHR ''/'' \<notin> set s \<Longrightarrow> strip_path s = s"
  by (induction s) auto

lemma strip_protocol_id: "CHR ''/'' \<notin> set s \<Longrightarrow> strip_protocol s = s"
  by (auto simp: strip_protocol_def prefix_def)

lemma toLowerCase_id: "\<forall>c\<in>set s. toLowerCase_char c = c \<Longrightarrow> toLowerCase s = s"
  by (simp add: toLowerCase_def map_idI)

lemma normal_form_fixed:
  assumes ws: "\<forall>c\<in>set t. \<not> isWhiteSpace c"
    and lc: "\<forall>c\<in>set t. toLowerCase_char c = c"
    and sl: "CHR ''/'' \<notin> set t"
    and www: "\<not> prefix ''www.'' t"
  shows "normalizeDomain_service t = t" and "normalizeDomain_utils t = t"
proof -
  have w: "strip_www t = t" using www by (simp add: strip_www_def)
  show "normalizeDomain_service t = t"
    by (simp add: normalizeDomain_service_def strip_protocol_id [OF sl] strip_path_id [OF sl] w
        toLowerCase_id [OF lc] trim_id [OF ws])
  show "normalizeDomain_utils t = t"
    by (simp add: normalizeDomain_utils_def strip_protocol_id [OF sl] strip_path_id [OF sl] w
        toLowerCase_id [OF lc] trim_id [OF ws])
qed

lemma service_normal_form:
  assumes ws: "\<forall>c\<in>set s. \<not> isWhiteSpace c"
  shows "\<forall>c\<in>set (normalizeDomain_service s). \<not> isWhiteSpace c"
    and "\<forall>c\<in>set (normalizeDomain_service s). toLowerCase_char c = c"
    and "CHR ''/'' \<notin> set (normalizeDomain_service s)"
proof -
  let ?q = "strip_www (strip_path (strip_protocol s))"
  have sub: "set ?q \<subseteq> set s"
    using set_strip_www set_strip_path set_strip_protocol by blast
  have nolt: "\<forall>c\<in>set (strip_protocol s). \<not> isLineTerminator c"
    using ws set_strip_protocol lt_ws by blast
  have nosl: "CHR ''/'' \<notin> set ?q"
    using strip_path_no_slash [OF nolt] set_strip_www by blast
  have lws: "\<forall>c\<in>set (toLowerCase ?q). \<not> isWhiteSpace c"
    using ws sub by (auto simp: toLowerCase_def lower_ws)
  have tr: "trim (toLowerCase ?q) = toLowerCase ?q" by (rule trim_id [OF lws])
  have eq: "normalizeDomain_service s = toLowerCase ?q \<or> normalizeDomain_service s = []"
    by (simp add: normalizeDomain_service_def tr)
  show "\<forall>c\<in>set (normalizeDomain_service s). \<not> isWhiteSpace c"
    using eq lws by auto
  show "\<forall>c\<in>set (normalizeDomain_service s). toLowerCase_char c = c"
    using eq by (auto simp: toLowerCase_def lower_idem)
  show "CHR ''/'' \<notin> set (normalizeDomain_service s)"
  proof
    assume "CHR ''/'' \<in> set (normalizeDomain_service s)"
    with eq have "CHR ''/'' \<in> set (toLowerCase ?q)" by auto
    then obtain c where "c \<in> set ?q" and "toLowerCase_char c = CHR ''/''"
      by (auto simp: toLowerCase_def)
    then have "CHR ''/'' \<in> set ?q" by (simp add: lower_slash)
    with nosl show False by simp
  qed
qed

lemma utils_normal_form:
  assumes ws: "\<forall>c\<in>set s. \<not> isWhiteSpace c"
  shows "\<forall>c\<in>set (normalizeDomain_utils s). \<not> isWhiteSpace c"
    and "\<forall>c\<in>set (normalizeDomain_utils s). toLowerCase_char c = c"
    and "CHR ''/'' \<notin> set (normalizeDomain_utils s)"
proof -
  let ?u = "toLowerCase (trim s)"
  have tr: "trim s = s" by (rule trim_id [OF ws])
  have uws: "\<forall>c\<in>set ?u. \<not> isWhiteSpace c"
    using ws by (auto simp: tr toLowerCase_def lower_ws)
  have ulc: "\<forall>c\<in>set ?u. toLowerCase_char c = c"
    by (auto simp: toLowerCase_def lower_idem)
  have sub: "set (normalizeDomain_utils s) \<subseteq> set ?u"
    unfolding normalizeDomain_utils_def
    using set_strip_www set_strip_path set_strip_protocol by blast
  have nolt: "\<forall>c\<in>set (strip_protocol ?u). \<not> isLineTerminator c"
    using uws set_strip_protocol lt_ws by blast
  show "\<forall>c\<in>set (normalizeDomain_utils s). \<not> isWhiteSpace c"
    using sub uws by blast
  show "\<forall>c\<in>set (normalizeDomain_utils s). toLowerCase_char c = c"
    using sub ulc by blast
  show "CHR ''/'' \<notin> set (normalizeDomain_utils s)"
    unfolding normalizeDomain_utils_def
    using strip_path_no_slash [OF nolt] set_strip_www by blast
qed

text \<open>
  Claim C6, as amended. For every string without white space, normalising twice gives the
  same result as normalising once, for the implementation of marketingPlanService and for
  the one of domainUtils, provided the normalised string does not itself begin with
  \<^verbatim>\<open>www.\<close> (each replacement strips one occurrence only).
\<close>

theorem normalizeDomain_idempotent_amended:
  assumes "noWhiteSpace s"
  shows "(\<not> prefix ''www.'' (normalizeDomain_service s) \<longrightarrow>
            normalizeDomain_service (normalizeDomain_service s) = normalizeDomain_service s) \<and>
         (\<not> prefix ''www.'' (normalizeDomain_utils s) \<longrightarrow>
            normalizeDomain_utils (normalizeDomain_utils s) = normalizeDomain_utils s)"
proof -
  have ws: "\<forall>c\<in>set s. \<not> isWhiteSpace c"
    using assms by (simp add: noWhiteSpace_def list_ex_iff)
  show ?thesis
    using normal_form_fixed(1) [OF service_normal_form [OF ws]]
      normal_form_fixed(2) [OF utils_normal_form [OF ws]]
    by blast
qed

theorem normalizeDomain_idempotent_amended_witness:
  "noWhiteSpace ''https://www.Acme.com/pricing'' \<and>
   normalizeDomain_service ''https://www.Acme.com/pricing'' = ''acme.com'' \<and>
   normalizeDomain_utils ''https://www.Acme.com/pricing'' = ''acme.com'' \<and>
   normalizeDomain_service (normalizeDomain_service ''https://www.Acme.com/pricing'') = ''acme.com'' \<and>
   normalizeDomain_utils (normalizeDomain_utils ''https://www.Acme.com/pricing'') = ''acme.com''"
proof -
  have w: "noWhiteSpace ''https://www.Acme.com/pricing''"
    by (simp add: noWhiteSpace_def isWhiteSpace_def)
  have a: "normalizeDomain_service ''https://www.Acme.com/pricing'' = ''acme.com''"
    by (simp add: str_eval)
  have b: "normalizeDomain_utils ''https://www.Acme.com/pricing'' = ''acme.com''"
    by (simp add: str_eval)
  show ?thesis
    using normalizeDomain_idempotent_amended [OF w] w by (simp add: a b)
qed

text \<open>
  Claim C6 as stated fails: \<^verbatim>\<open>www.www.a.com\<close> normalises to \<^verbatim>\<open>www.a.com\<close>, which
  normalises to \<^verbatim>\<open>a.com\<close>, in both implementations.
\<close>

theorem normalizeDomain_not_idempotent:
  "normalizeDomain_service (normalizeDomain_service ''www.www.a.com'')
     \<noteq> normalizeDomain_service ''www.www.a.com'' \<and>
   normalizeDomain_utils (normalizeDomain_utils ''www.www.a.com'')
     \<noteq> normalizeDomain_utils ''www.www.a.com''"
  by (simp add: str_eval)


text \<open>
  The condition on the normalised string is needed: when it begins with \<^verbatim>\<open>www.\<close>, the second
  pass strips that prefix.
\<close>

lemma normal_form_www:
  assumes ws: "\<forall>c\<in>set t. \<not> isWhiteSpace c"
    and lc: "\<forall>c\<in>set t. toLowerCase_char c = c"
    and sl: "CHR ''/'' \<notin> set t"
    and www: "prefix ''www.'' t"
  shows "normalizeDomain_service t = drop 4 t" and "normalizeDomain_utils t = drop 4 t"
proof -
  have w: "strip_www t = drop 4 t" using www by (simp add: strip_www_def)
  have ne: "t \<noteq> []" using www by auto
  have ws': "\<forall>c\<in>set (drop 4 t). \<not> isWhiteSpace c" using ws by (meson in_set_dropD)
  have lc': "\<forall>c\<in>set (drop 4 t). toLowerCase_char c = c" using lc by (meson in_set_dropD)
  show "normalizeDomain_service t = drop 4 t"
    using ne
    by (simp add: normalizeDomain_service_def strip_protocol_id [OF sl] strip_path_id [OF sl] w
        toLowerCase_id [OF lc'] trim_id [OF ws'])
  show "normalizeDomain_utils t = drop 4 t"
    by (simp add: normalizeDomain_utils_def strip_protocol_id [OF sl] strip_path_id [OF sl] w
        toLowerCase_id [OF lc] trim_id [OF ws])
qed

lemma normalizeDomain_second_pass_strips_www:
  assumes "noWhiteSpace s"
  shows "(prefix ''www.'' (normalizeDomain_service s) \<longrightarrow>
            normalizeDomain_service (normalizeDomain_service s) \<noteq> normalizeDomain_service s) \<and>
         (prefix ''www.'' (normalizeDomain_utils s) \<longrightarrow>
            normalizeDomain_utils (normalizeDomain_utils s) \<noteq> normalizeDomain_utils s)"
proof -
  have ws: "\<forall>c\<in>set s. \<not> isWhiteSpace c"
    using assms by (simp add: noWhiteSpace_def list_ex_iff)
  have d: "drop 4 t \<noteq> t" if "prefix ''www.'' t" for t :: string
  proof
    assume "drop 4 t = t"
    then have "length (drop 4 t) = length t" by simp
    moreover from that have "4 \<le> length t" by (auto simp: prefix_def)
    ultimately show False by simp
  qed
  show ?thesis
    using normal_form_www(1) [OF service_normal_form [OF ws]]
      normal_form_www(2) [OF utils_normal_form [OF ws]] d
    by auto
qed

text \<open>
  The implementation of marketingPlanService strips \<^verbatim>\<open>www.\<close> before it lower-cases, and
  trims last: a capitalised prefix and a path ending in a line break are two more inputs
  on which a second pass changes the result.
\<close>

lemma normalizeDomain_service_uppercase_www:
  "normalizeDomain_service ''WWW.a.com'' = ''www.a.com'' \<and>
   normalizeDomain_service ''www.a.com'' = ''a.com''"
  by (simp add: str_eval)

lemma normalizeDomain_service_trailing_newline:
  "normalizeDomain_service [CHR ''a'', CHR ''/'', CHR ''b'', CHR 0x0A] = ''a/b'' \<and>
   normalizeDomain_service ''a/b'' = ''a''"
  by (simp add: str_eval)

text \<open>
  The implementation of domainUtils trims first: white space after the protocol survives the
  first pass and is trimmed by the second.
\<close>

lemma normalizeDomain_utils_space_after_protocol:
  "normalizeDomain_utils ''http:// a.com'' = '' a.com'' \<and>
   normalizeDomain_utils '' a.com'' = ''a.com''"
  by (simp add: str_eval)

subsection \<open>Response classifier\<close>

lemma str_includes_sublist: "str_includes s p \<longleftrightarrow> sublist p s"
  by (induction s) (auto simp: sublist_Cons_right)

lemma errorPhrases_lower_all: "list_all (\<lambda>p. toLowerCase p = p) errorPhrases"
  by code_simp

lemma errorPhrases_lower: "phrase \<in> set errorPhrases \<Longrightarrow> toLowerCase phrase = phrase"
  using errorPhrases_lower_all by (simp add: list_all_iff)

lemma containsErrorMessage_iff:
  "containsErrorMessage response \<longleftrightarrow>
     truthy response \<and>
     (\<exists>content phrase.
        jor (responseContent response) (getp response ''content'') = Some content \<and>
        phrase \<in> set errorPhrases \<and>
        ((\<exists>s. content = JStr s \<and> sublist phrase (toLowerCase s)) \<or>
         ((\<exists>xs. content = JArr xs) \<or> (\<exists>kvs. content = JObj kvs)) \<and>
           sublist phrase (toLowerCase (stringify content))))"
proof (cases "jor (responseContent response) (getp response ''content'')")
  case None
  then show ?thesis by (simp add: containsErrorMessage_def)
next
  case (Some c)
  then show ?thesis
    by (cases c)
      (auto simp: containsErrorMessage_def list_ex_iff str_includes_sublist errorPhrases_lower)
qed

lemma content_truthy_response:
  "jor (responseContent response) (getp response ''content'') = Some content \<Longrightarrow> truthy response"
  by (cases response) (auto simp: responseContent_def)

text \<open>
  Claim C4. For every response whose content (\<^verbatim>\<open>response.response?.data?.content || response.content\<close>)
  contains one of the known error phrases, matched case-insensitively in the text when the
  content is a string and in its JSON serialisation when it is an object or an array, the
  classifier \<^verbatim>\<open>isAnalysisComplete\<close> returns false, whatever the status field says.
\<close>

theorem isAnalysisComplete_embedded_error:
  assumes "phrase \<in> set errorPhrases"
    and "jor (responseContent response) (getp response ''content'') = Some content"
    and "(\<exists>s. content = JStr s \<and> sublist phrase (toLowerCase s)) \<or>
         ((\<exists>xs. content = JArr xs) \<or> (\<exists>kvs. content = JObj kvs)) \<and>
           sublist phrase (toLowerCase (stringify content))"
  shows "\<not> isAnalysisComplete response"
proof -
  have "truthy response" using assms(2) by (rule content_truthy_response)
  then have "containsErrorMessage response"
    using assms unfolding containsErrorMessage_iff by blast
  then show ?thesis by (simp add: isAnalysisComplete_def)
qed

theorem isAnalysisComplete_embedded_error_witness:
  "getp apologyResponse ''status'' = Some (JStr ''succeeded'') \<and>
   \<not> isAnalysisComplete apologyResponse"
proof -
  have p: "''i'm sorry'' \<in> set errorPhrases"
    by (simp add: errorPhrases_def)
  have c: "jor (responseContent apologyResponse) (getp apologyResponse ''content'')
             = Some apologyContent"
    by (simp add: apologyResponse_def apologyContent_def responseContent_def)
  have "str_includes (toLowerCase (stringify apologyContent)) ''i'm sorry''"
    by code_simp
  then have s: "sublist ''i'm sorry'' (toLowerCase (stringify apologyContent))"
    by (simp add: str_includes_sublist)
  have o: "\<exists>kvs. apologyContent = JObj kvs"
    by (simp add: apologyContent_def)
  show ?thesis
    using isAnalysisComplete_embedded_error [OF p c] s o
    by (simp add: apologyResponse_def)
qed

text \<open>Without the apology the same payload is complete.\<close>

lemma isAnalysisComplete_completedResponse: "isAnalysisComplete completedResponse"
  by code_simp

lemma isProgramDetailsKey_iff:
  "isProgramDetailsKey k \<longleftrightarrow>
     (\<exists>ds. ds \<noteq> [] \<and> list_all isDigit ds \<and> k = ''program_'' @ ds @ ''_details'')"
proof
  assume a: "isProgramDetailsKey k"
  let ?r = "drop 8 k"
  from a have p: "prefix ''program_'' k" and t: "takeWhile isDigit ?r \<noteq> []"
    and d: "dropWhile isDigit ?r = ''_details''"
    by (simp_all add: isProgramDetailsKey_def Let_def)
  from p have k: "k = ''program_'' @ ?r" by (auto simp: prefix_def)
  have "?r = takeWhile isDigit ?r @ dropWhile isDigit ?r" by simp
  with d have r: "?r = takeWhile isDigit ?r @ ''_details''" by simp
  have "list_all isDigit (takeWhile isDigit ?r)"
    by (simp add: list_all_iff) (meson set_takeWhileD)
  with t k r show "\<exists>ds. ds \<noteq> [] \<and> list_all isDigit ds \<and> k = ''program_'' @ ds @ ''_details''"
    by metis
next
  assume "\<exists>ds. ds \<noteq> [] \<and> list_all isDigit ds \<and> k = ''program_'' @ ds @ ''_details''"
  then obtain ds where ne: "ds \<noteq> []" and dg: "list_all isDigit ds"
    and k: "k = ''program_'' @ ds @ ''_details''" by blast
  have nd: "\<not> isDigit CHR ''_''" by (simp add: isDigit_def)
  have tw: "takeWhile isDigit (ds @ ''_details'') = ds"
    using dg nd by (simp add: list_all_iff takeWhile_append2)
  have dw: "dropWhile isDigit (ds @ ''_details'') = ''_details''"
    using dg nd by (simp add: list_all_iff dropWhile_append2)
  show "isProgramDetailsKey k"
    using ne by (simp add: isProgramDetailsKey_def k tw dw)
qed

lemma objectLike_iff: "objectLike v \<longleftrightarrow> (\<exists>x. v = Some x \<and> truthy x \<and> typeof_object x)"
  by (cases v; simp add: objectLike_def) (rename_tac x, case_tac x; simp)

lemma objectLike_iff2:
  "objectLike v \<longleftrightarrow> (\<exists>x. v = Some x \<and> truthy x \<and> (isArray x \<or> typeof_object x))"
  by (cases v; simp add: objectLike_def) (rename_tac x, case_tac x; simp)

text \<open>
  Claim C5, as amended. \<^verbatim>\<open>hasMinimumContent\<close> returns true exactly when
  \<^verbatim>\<open>response.response.data.content\<close> is present and truthy and, in addition, either the
  status is \<^verbatim>\<open>succeeded\<close>, or \<^verbatim>\<open>company_summary\<close> is an object, or \<^verbatim>\<open>programs_list\<close> is an
  array or an object (empty or not), or some key of the content has the form
  \<^verbatim>\<open>program_<digits>_details\<close>. So the status alone suffices only when the content is there.
\<close>

theorem hasMinimumContent_amended:
  "hasMinimumContent response \<longleftrightarrow>
     (\<exists>content. responseContent response = Some content \<and> truthy content \<and>
        (getp response ''status'' = Some (JStr ''succeeded'') \<or>
         objectLike (getp content ''company_summary'') \<or>
         objectLike (getp content ''programs_list'') \<or>
         (\<exists>k \<in> set (objectKeys content). \<exists>ds. ds \<noteq> [] \<and> list_all isDigit ds \<and>
            k = ''program_'' @ ds @ ''_details'')))"
proof (cases "responseContent response")
  case None
  then show ?thesis by (simp add: hasMinimumContent_def)
next
  case (Some c)
  then have tr: "truthy response" by (cases response) (auto simp: responseContent_def)
  have cs: "(case getp c ''company_summary'' of None \<Rightarrow> False
              | Some cs \<Rightarrow> truthy cs \<and> typeof_object cs) = objectLike (getp c ''company_summary'')"
    by (auto simp: objectLike_iff split: option.splits)
  have pl: "(case getp c ''programs_list'' of None \<Rightarrow> False
              | Some pl \<Rightarrow> truthy pl \<and> (isArray pl \<or> typeof_object pl))
            = objectLike (getp c ''programs_list'')"
    by (auto simp: objectLike_iff2 split: option.splits)
  show ?thesis
    unfolding hasMinimumContent_def Some
    by (simp add: tr cs pl Let_def list_ex_iff isProgramDetailsKey_iff)
qed

theorem hasMinimumContent_amended_witness:
  "hasMinimumContent completedResponse \<and>
   hasMinimumContent (JObj [(''status'', JStr ''running''),
     (''response'', JObj [(''data'', JObj [(''content'',
        JObj [(''programs_list'', JArr [])])])])]) \<and>
   \<not> hasMinimumContent (JObj [(''status'', JStr ''running''),
     (''response'', JObj [(''data'', JObj [(''content'', JObj [])])])])"
  unfolding hasMinimumContent_amended
  by (simp add: completedResponse_def responseContent_def objectLike_def)

text \<open>
  Claim C5 as stated fails: a payload whose status is \<^verbatim>\<open>succeeded\<close> and which has no
  content is rejected by the guard on the first line of the function.
\<close>

theorem hasMinimumContent_succeeded_without_content:
  "getp (JObj [(''status'', JStr ''succeeded'')]) ''status'' = Some (JStr ''succeeded'') \<and>
   \<not> hasMinimumContent (JObj [(''status'', JStr ''succeeded'')])"
  by (simp add: hasMinimumContent_def responseContent_def)

text \<open>The more lenient sibling \<^verbatim>\<open>hasAnyUsableData\<close> does accept that payload.\<close>

lemma hasAnyUsableData_succeeded_without_content:
  "hasAnyUsableData (JObj [(''status'', JStr ''succeeded'')])"
  by (simp add: hasAnyUsableData_def)

lemma firstArray_Cons:
  "firstArray (v # rest) = (case v of Some (JArr xs) \<Rightarrow> Some xs | _ \<Rightarrow> firstArray rest)"
  by (cases "(v # rest)" rule: firstArray.cases) auto

lemma firstArray_pick:
  "(case a of Some (JArr xs) \<Rightarrow> Some xs
    | _ \<Rightarrow> (case b of Some (JArr xs) \<Rightarrow> Some xs
           | _ \<Rightarrow> (case d of Some (JArr xs) \<Rightarrow> Some xs | _ \<Rightarrow> Some [c])))
   = Some (case firstArray [a, b, d] of Some xs \<Rightarrow> xs | None \<Rightarrow> [c])"
proof -
  have step: "(case v of Some (JArr xs) \<Rightarrow> Some xs | _ \<Rightarrow> Some (case firstArray rest of Some xs \<Rightarrow> xs | None \<Rightarrow> [c]))
      = Some (case firstArray (v # rest) of Some xs \<Rightarrow> xs | None \<Rightarrow> [c])" for v rest
    by (cases "(v # rest)" rule: firstArray.cases) auto
  have d: "(case d of Some (JArr xs) \<Rightarrow> Some xs | _ \<Rightarrow> Some [c])
      = Some (case firstArray [d] of Some xs \<Rightarrow> xs | None \<Rightarrow> [c])"
    by (simp split: option.split json.split)
  show ?thesis
    unfolding d step ..
qed

text \<open>
  The three call sites of \<^verbatim>\<open>extractCompetitors\<close> are guarded by \<^verbatim>\<open>isAnalysisComplete\<close>, which
  lets through only a response whose content is an object with at least one key.
\<close>

lemma isAnalysisComplete_content:
  assumes "isAnalysisComplete response"
  shows "\<exists>kvs. kvs \<noteq> [] \<and> responseContent response = Some (JObj kvs)"
proof -
  from assms obtain c where c: "responseContent response = Some c"
    and t: "typeof_object c" "truthy c" and k: "length (objectKeys c) \<noteq> 0"
    and s: "getp c ''company_summary'' \<noteq> None"
    by (auto simp: isAnalysisComplete_def Let_def split: if_splits option.splits)
  from s obtain kvs where "c = JObj kvs" by (cases c) auto
  with c k show ?thesis by auto
qed

text \<open>
  Claim C10. The content is absent when \<^verbatim>\<open>response.response?.data?.content\<close> gives nothing to
  work with, which the code tests as \<^verbatim>\<open>!content\<close>: the property chain breaks off, or its value
  is null or another falsy value. A content subtree, that is an object or an array, is
  never absent. \<^verbatim>\<open>extractCompetitors\<close> returns null exactly when the content is absent;
  otherwise it returns the first of \<^verbatim>\<open>content.competitors\<close>, \<^verbatim>\<open>content.competitor_list\<close> and
  \<^verbatim>\<open>content.top_competitors\<close> that is an array, and when none of the three is an array the
  list whose one element is the content. For every response that reaches the function
  (one that \<^verbatim>\<open>isAnalysisComplete\<close> accepts) the content is a non-empty object and the result
  is not null.
\<close>

theorem extractCompetitors_result:
  "(extractCompetitors response = None \<longleftrightarrow> \<not> truthy_opt (responseContent response)) \<and>
   (objectLike (responseContent response) \<longrightarrow> extractCompetitors response \<noteq> None) \<and>
   (responseContent response = Some content \<and> truthy content \<longrightarrow>
      extractCompetitors response =
        Some (case firstArray [getp content ''competitors'', getp content ''competitor_list'',
                               getp content ''top_competitors''] of
                Some xs \<Rightarrow> xs
              | None \<Rightarrow> [content]) \<and>
      (firstArray [getp content ''competitors'', getp content ''competitor_list'',
                   getp content ''top_competitors''] = None \<longrightarrow>
         extractCompetitors response = Some [content])) \<and>
   (isAnalysisComplete response \<longrightarrow>
      (\<exists>kvs. kvs \<noteq> [] \<and> responseContent response = Some (JObj kvs)) \<and>
      extractCompetitors response \<noteq> None)"
proof -
  have nf: "(extractCompetitors response = None \<longleftrightarrow>
               \<not> truthy_opt (responseContent response)) \<and>
            (responseContent response = Some content \<and> truthy content \<longrightarrow>
               extractCompetitors response =
                 Some (case firstArray [getp content ''competitors'',
                                        getp content ''competitor_list'',
                                        getp content ''top_competitors''] of
                         Some xs \<Rightarrow> xs
                       | None \<Rightarrow> [content]))"
  proof (cases "responseContent response")
    case None
    then show ?thesis by (simp add: extractCompetitors_def)
  next
    case (Some c)
    then have tr: "truthy response" by (cases response) (auto simp: responseContent_def)
    show ?thesis
    proof (cases "truthy c")
      case False
      then show ?thesis using Some tr by (auto simp: extractCompetitors_def)
    next
      case True
      have "extractCompetitors response =
          Some (case firstArray [getp c ''competitors'', getp c ''competitor_list'',
                                 getp c ''top_competitors''] of
                  Some xs \<Rightarrow> xs
                | None \<Rightarrow> [c])"
        unfolding extractCompetitors_def Some firstArray_pick [symmetric]
        using tr True by simp
      then show ?thesis using True Some by auto
    qed
  qed
  then have n: "extractCompetitors response = None \<longleftrightarrow>
      \<not> truthy_opt (responseContent response)"
    and f: "responseContent response = Some content \<and> truthy content \<longrightarrow>
      extractCompetitors response =
        Some (case firstArray [getp content ''competitors'', getp content ''competitor_list'',
                               getp content ''top_competitors''] of
                Some xs \<Rightarrow> xs
              | None \<Rightarrow> [content])"
    by blast+
  have o: "objectLike (responseContent response) \<longrightarrow> extractCompetitors response \<noteq> None"
    unfolding n by (auto simp: objectLike_iff)
  have c: "isAnalysisComplete response \<longrightarrow>
      (\<exists>kvs. kvs \<noteq> [] \<and> responseContent response = Some (JObj kvs)) \<and>
      extractCompetitors response \<noteq> None"
    unfolding n using isAnalysisComplete_content [of response] by auto
  from n o f c show ?thesis by simp
qed

theorem extractCompetitors_result_witness:
  "extractCompetitors (JObj [(''status'', JStr ''succeeded'')]) = None \<and>
   isAnalysisComplete completedResponse \<and>
   extractCompetitors completedResponse =
     Some [JObj [(''company_summary'', JObj [(''name'', JStr ''Acme'')]),
                 (''programs_list'', JArr [JObj [(''program_name'', JStr ''X'')]])]] \<and>
   extractCompetitors (JObj [(''response'', JObj [(''data'', JObj [(''content'',
       JObj [(''competitors'', JStr ''none''),
             (''top_competitors'', JArr [JStr ''a'', JStr ''b''])])])])])
     = Some [JStr ''a'', JStr ''b'']"
  using extractCompetitors_result [of "JObj [(''status'', JStr ''succeeded'')]"]
    extractCompetitors_result [of completedResponse
      "JObj [(''company_summary'', JObj [(''name'', JStr ''Acme'')]),
             (''programs_list'', JArr [JObj [(''program_name'', JStr ''X'')]])]"]
    extractCompetitors_result [of "JObj [(''response'', JObj [(''data'', JObj [(''content'',
       JObj [(''competitors'', JStr ''none''),
             (''top_competitors'', JArr [JStr ''a'', JStr ''b''])])])])]"
      "JObj [(''competitors'', JStr ''none''),
             (''top_competitors'', JArr [JStr ''a'', JStr ''b''])]"]
    isAnalysisComplete_completedResponse
  by (simp add: completedResponse_def responseContent_def)

text \<open>
  A content that is there but is not a subtree, such as the empty string, counts as absent.
  The classifier does not call such a response complete, so it does not reach the function.
\<close>

lemma extractCompetitors_empty_string_is_absent:
  "extractCompetitors (JObj [(''status'', JStr ''succeeded''),
      (''response'', JObj [(''data'', JObj [(''content'', JStr [])])])]) = None \<and>
   \<not> isAnalysisComplete (JObj [(''status'', JStr ''succeeded''),
      (''response'', JObj [(''data'', JObj [(''content'', JStr [])])])])"
  by (simp add: extractCompetitors_def isAnalysisComplete_def containsErrorMessage_def
      responseContent_def)

subsection \<open>Plan normaliser: the summary\<close>






text \<open>The two readings agree when no alternate holds the literal \<^verbatim>\<open>Not specified\<close>.\<close>

lemma firstTruthy_firstQualifying:
  "Some (JStr ''Not specified'') \<notin> set alts \<Longrightarrow> firstTruthy alts d = firstQualifying alts d"
  by (induction alts d rule: firstTruthy.induct) auto

subsection \<open>Plan normaliser: the items\<close>

lemma mapPrograms_length: "mapPrograms i xs = Inr ps \<Longrightarrow> length ps = length xs"
  by (induction xs arbitrary: i ps) (auto split: sum.splits)

lemma applyDetails_length: "length (applyDetails c ps k) = length ps"
  by (simp add: applyDetails_def Let_def split: option.splits)

lemma foldl_applyDetails_length: "length (foldl (applyDetails c) ps ks) = length ps"
  by (induction ks arbitrary: ps) (simp_all add: applyDetails_length)

lemma parsePrograms_falsy: "\<not> truthy_opt items \<Longrightarrow> parsePrograms items allContentData = Inr []"
  by (cases items) (simp_all add: parsePrograms_def)

lemma applyAllDetails_length: "length (applyAllDetails c ps) = length ps"
  by (simp add: applyAllDetails_def foldl_applyDetails_length split: option.splits)

lemma orPlaceholder_nonempty: "1 \<le> length (orPlaceholder ps)"
  by (cases ps) (simp_all add: orPlaceholder_def)

lemma parsePrograms_nonempty:
  assumes "parsePrograms items allContentData = Inr ps" and "truthy_opt items"
  shows "1 \<le> length ps"
proof -
  from assms(2) obtain d where d: "items = Some d" and t: "truthy d" by (cases items) auto
  from assms(1) obtain mapped where "ps = applyAllDetails allContentData (orPlaceholder mapped)"
    unfolding parsePrograms_def d using t by (auto split: sum.splits)
  then show ?thesis
    using orPlaceholder_nonempty [of mapped] by (simp add: applyAllDetails_length)
qed

lemma parsePrograms_empty_map:
  "parsePrograms (Some (JObj [])) c = Inr (applyAllDetails c [placeholderProgram])"
  by (simp add: parsePrograms_def basePrograms_def orPlaceholder_def)

lemma applyAllDetails_no_keys:
  "\<not> list_ex isProgramDetailsKey (objectKeys c) \<Longrightarrow> applyAllDetails (Some c) ps = ps"
  by (simp add: applyAllDetails_def list_ex_iff filter_empty_conv [THEN iffD2])

lemma parsePlanData_programs:
  assumes "parsePlanData (Some raw) domain = Inr (Some plan)"
  shows "truthy (locateContent raw) \<and> typeof_object (locateContent raw) \<and>
         parsePrograms (getp (locateContent raw) ''programs_list'') (Some (locateContent raw))
           = Inr (programs_list plan)"
proof -
  obtain content path where g: "getNestedValue raw contentPaths = (content, path)"
    by (cases "getNestedValue raw contentPaths")
  then have c: "locateContent raw = content" by (simp add: locateContent_def)
  show ?thesis
    using assms unfolding parsePlanData_def c
    by (auto simp: g Let_def split: if_splits sum.splits)
qed

text \<open>
  Claim C3, as amended. For every payload the normaliser accepts, the items list has at least
  one entry exactly when the located content has a truthy \<^verbatim>\<open>programs_list\<close>; when
  \<^verbatim>\<open>programs_list\<close> is the empty map the list has exactly one entry, and that entry is the
  placeholder named \<^verbatim>\<open>Marketing Program\<close> when the content has no \<^verbatim>\<open>program_N_details\<close> key.
\<close>

theorem parsePlanData_items_amended:
  assumes "parsePlanData (Some raw) domain = Inr (Some plan)"
  shows "(1 \<le> length (programs_list plan))
           = truthy_opt (getp (locateContent raw) ''programs_list'') \<and>
         (getp (locateContent raw) ''programs_list'' = Some (JObj []) \<longrightarrow>
            length (programs_list plan) = 1 \<and>
            (\<not> list_ex isProgramDetailsKey (objectKeys (locateContent raw)) \<longrightarrow>
               programs_list plan = [placeholderProgram]))"
proof -
  let ?c = "locateContent raw"
  from parsePlanData_programs [OF assms]
  have tc: "truthy ?c" and oc: "typeof_object ?c"
    and pp: "parsePrograms (getp ?c ''programs_list'') (Some ?c) = Inr (programs_list plan)"
    by simp_all
  have a: "(1 \<le> length (programs_list plan)) = truthy_opt (getp ?c ''programs_list'')"
  proof (cases "truthy_opt (getp ?c ''programs_list'')")
    case True
    with parsePrograms_nonempty [OF pp] show ?thesis by simp
  next
    case False
    with pp parsePrograms_falsy [OF False, of "Some ?c"] show ?thesis by simp
  qed
  have b: "length (programs_list plan) = 1 \<and>
            (\<not> list_ex isProgramDetailsKey (objectKeys ?c) \<longrightarrow>
               programs_list plan = [placeholderProgram])"
    if e: "getp ?c ''programs_list'' = Some (JObj [])"
  proof -
    have "programs_list plan = applyAllDetails (Some ?c) [placeholderProgram]"
      using pp unfolding e parsePrograms_empty_map by simp
    then show ?thesis
      by (auto simp: applyAllDetails_length applyAllDetails_no_keys)
  qed
  from a b show ?thesis by blast
qed

theorem parsePlanData_items_amended_witness:
  "getp (locateContent scenarioD) ''programs_list'' = Some (JObj []) \<and>
   map_sum id (map_option programs_list) (parsePlanData (Some scenarioD) None)
     = Inr (Some [placeholderProgram]) \<and>
   program_name placeholderProgram = JStr ''Marketing Program''"
proof -
  have e: "parsePlanData (Some scenarioD) None = Inr (Some
     \<lparr>company_summary =
        \<lparr>name = JStr ''Unknown Company'', website = JStr ''Unknown'',
         activities = JStr ''Not specified'', target = JStr ''Not specified'',
         industry = None, target_audience = None, nb_employees = None, business_model = None,
         linkedin_scrape_status = None, customer_lifecycle_key_steps = None\<rparr>,
      programs_list = [placeholderProgram],
      introduction = JStr [], tools_used = JStr [], conclusion = JStr [],
      how_brevo_helps_you = [],
      raw_content_structure =
        \<lparr>contentKeys = [''programs_list''], programDetailKeys = [], contentPath = ''content''\<rparr>,
      conversation_id = None\<rparr>)"
    by code_simp
  have c: "getp (locateContent scenarioD) ''programs_list'' = Some (JObj [])"
    by (simp add: locateContent_def scenarioD_def contentPaths_def)
  from parsePlanData_items_amended [OF e] c show ?thesis
    by (simp add: e placeholderProgram_def)
qed

text \<open>
  Claim C3 as stated fails: a payload with a summary and no \<^verbatim>\<open>programs_list\<close> is accepted
  and its items list is empty (the early return of \<^verbatim>\<open>parsePrograms\<close>).
\<close>

theorem parsePlanData_without_programs_list:
  "map_sum id (map_option programs_list) (parsePlanData (Some noProgramsPayload) None)
     = Inr (Some [])"
  by code_simp

text \<open>
  With an empty map and a \<^verbatim>\<open>program_1_details\<close> key, the single entry carries the name of
  the details.
\<close>

lemma parsePlanData_placeholder_renamed:
  "map_sum id (map_option (\<lambda>plan. map program_name (programs_list plan)))
     (parsePlanData (Some (JObj [(''content'',
        JObj [(''programs_list'', JObj []),
              (''program_1_details'', JObj [(''name'', JStr ''Welcome series'')])])])) None)
     = Inr (Some [JStr ''Welcome series''])"
  by code_simp

subsection \<open>Persistence: the latch of the success path\<close>



text \<open>The latch is the first test of the success path.\<close>

lemma handleSuccessfulPlan_latched:
  "hasNavigatedRef h \<Longrightarrow> handleSuccessfulPlan browser p r h = h"
  by (simp add: handleSuccessfulPlan_def)


















text \<open>
  The condition on the times is what keeps the success path away from its branch
  \<^verbatim>\<open>Minimum wait time not reached yet\<close>: in a state in which the timer armed at mount has not
  run, a pass saves without setting the latch, and a second pass writes a second row. No
  call of the polling callback finds that state: the initial delay is never shorter than
  the minimum wait time.
\<close>

lemma handleSuccessfulPlan_before_minimum_time:
  "length (inserts
     (handleSuccessfulPlan aBrowser (Some acmePlan) completedResponse
        (handleSuccessfulPlan aBrowser (Some acmePlan) completedResponse
           (newSession ''acme.com'' ''abc12345'' ''a@b.co'')))) = 2"
  by (simp add: handleSuccessfulPlan_def newSession_def acmePlan_def completedResponse_def
      saveStep_def navigateStep_def domainPresent_def saveMarketingPlan_def Let_def)

subsection \<open>Terminal errors in the polling callback\<close>

text \<open>
  What the \<^verbatim>\<open>catch\<close> block does with the counter of consecutive not-found errors: every
  message with \<^verbatim>\<open>no agent response\<close> or \<^verbatim>\<open>404\<close> counts, the second in a row stops polling,
  and any other error and any response reset the counter.
\<close>

lemma isNotFoundError_no_agent_response_found:
  assumes "str_includes (toLowerCase m) ''no agent response found''"
  shows "isNotFoundError m"
proof -
  have "sublist ''no agent response'' ''no agent response found''"
    by (rule prefix_imp_sublist) simp
  with assms have "sublist ''no agent response'' (toLowerCase m)"
    unfolding str_includes_sublist by (rule sublist_order.order_trans [rotated])
  then show ?thesis by (simp add: isNotFoundError_def str_includes_sublist)
qed

lemma pollingCatch_first_occurrence:
  assumes "isNotFoundError m" and "consecutive404ErrorsRef h = 0"
  shows "continuePolling (fst (pollingCatch cid m h)) = continuePolling h \<and>
         consecutive404ErrorsRef (fst (pollingCatch cid m h)) = 1"
  using assms by (simp add: pollingCatch_def notFoundErrorThreshold_def Let_def)

lemma pollingCatch_second_occurrence:
  assumes "isNotFoundError m" and "consecutive404ErrorsRef h = 1"
  shows "\<not> continuePolling (fst (pollingCatch cid m h))"
  using assms by (simp add: pollingCatch_def notFoundErrorThreshold_def Let_def)

lemma pollingCatch_other_error_resets:
  assumes "\<not> isNotFoundError m"
  shows "consecutive404ErrorsRef (fst (pollingCatch cid m h)) = 0 \<and>
         continuePolling (fst (pollingCatch cid m h)) = continuePolling h"
  using assms by (simp add: pollingCatch_def)

lemma pollingCallback_response_resets:
  assumes "conversationIdRef h = Some cid" and "cid \<noteq> []"
    and "getp response ''status'' \<noteq> Some (JStr ''failed'')"
    and "\<not> isAnalysisComplete response"
  shows "consecutive404ErrorsRef (fst (pollingCallback browser (Inr response) h)) = 0 \<and>
         continuePolling (fst (pollingCallback browser (Inr response) h)) = continuePolling h"
  using assms by (simp add: pollingCallback_def Let_def)

text \<open>
  The helper \<^verbatim>\<open>shouldStopPolling\<close>, which the hook imports and never calls, stops at once for
  any message that matches one of its patterns.
\<close>

lemma shouldStopPolling_generic_404: "shouldStopPolling ''Server error: 404 - Not Found'' 0"
  by code_simp

lemma polling_stops_after_second_no_agent_response:
  "\<not> continuePolling (fst (pollingCallback aBrowser (Inl ''404 no agent response found'')
      (fst (pollingCallback aBrowser (Inl ''404 no agent response found'')
         (newSession ''acme.com'' ''abc12345'' ''a@b.co'')))))"
  by code_simp

text \<open>
  Claim C1. An error whose message contains \<^verbatim>\<open>no agent response found\<close> should stop polling
  after one occurrence. The polling callback does not: after the first such error of a
  session the counter is 1, below the threshold of 2, and polling continues, although the
  helper \<^verbatim>\<open>shouldStopPolling\<close> answers that it should stop.
\<close>

theorem polling_continues_after_first_no_agent_response:
  "continuePolling (fst (pollingCallback aBrowser (Inl ''404 no agent response found'')
      (newSession ''acme.com'' ''abc12345'' ''a@b.co''))) \<and>
   consecutive404ErrorsRef (fst (pollingCallback aBrowser (Inl ''404 no agent response found'')
      (newSession ''acme.com'' ''abc12345'' ''a@b.co''))) = 1 \<and>
   shouldStopPolling ''404 no agent response found'' 1"
  by code_simp


subsection \<open>Polling scheduler: reaching the attempt limit\<close>

lemma askContinue_always:
  "alwaysContinue opts \<Longrightarrow> fst (askContinue opts p) = True"
  by (auto simp: alwaysContinue_def askContinue_def split: option.splits)

lemma askContinue_state:
  "isMountedRef (snd (askContinue opts p)) = isMountedRef p"
  "isActivePollingRef (snd (askContinue opts p)) = isActivePollingRef p"
  "isLocked (snd (askContinue opts p)) = isLocked p"
  "timerRef (snd (askContinue opts p)) = timerRef p"
  "fetchCalls (snd (askContinue opts p)) = fetchCalls p"
  "maxAttemptsReachedCalls (snd (askContinue opts p)) = maxAttemptsReachedCalls p"
  "status (snd (askContinue opts p)) = status p"
  "isPolling (snd (askContinue opts p)) = isPolling p"
  by (simp_all add: askContinue_def split: option.splits)

lemma scheduleNext_waiting:
  assumes "isMountedRef p" "isActivePollingRef p" "isLocked p" "fetchCalls p = n"
    "maxAttemptsReachedCalls p = 0" "status p \<noteq> StatusTimeout"
  shows "waiting n (scheduleNext n p)"
  using assms by (simp add: scheduleNext_def waiting_def)

lemma afterResult_step:
  assumes ac: "alwaysContinue opts" and nc: "\<not> isCompletedResponse result"
    and p: "isMountedRef p" "isActivePollingRef p" "isLocked p" "timerRef p = None"
      "fetchCalls p = n" "maxAttemptsReachedCalls p = 0"
    and m: "maxAttempts opts = Some m" "0 < m" and om: "onMaxAttemptsReached opts"
  shows "(n < m \<longrightarrow> waiting n (afterResult opts n result p)) \<and>
         (n = m \<longrightarrow> timedOut m (afterResult opts n result p))"
proof -
  let ?p2 = "p\<lparr>lastSuccessDataRef := Some result,
                 hasSuccessfulResponseRef := hasSuccessfulResponseRef p,
                 attempt := n, data := Some result, status := StatusPolling\<rparr>"
  have e: "afterResult opts n result p =
      (if maxAttemptsHit opts n then toTimeout opts ?p2
       else scheduleNext n (snd (askContinue opts ?p2)))"
    using nc p(1,2) askContinue_always [OF ac, of ?p2]
    by (simp add: afterResult_def Let_def case_prod_beta)
  show ?thesis
  proof (intro conjI impI)
    assume "n < m"
    then have "\<not> maxAttemptsHit opts n" using m by (simp add: maxAttemptsHit_def)
    then have "afterResult opts n result p = scheduleNext n (snd (askContinue opts ?p2))"
      using e by simp
    moreover have "waiting n (scheduleNext n (snd (askContinue opts ?p2)))"
      by (rule scheduleNext_waiting) (simp_all add: askContinue_state p)
    ultimately show "waiting n (afterResult opts n result p)" by simp
  next
    assume "n = m"
    then have "maxAttemptsHit opts n" using m by (simp add: maxAttemptsHit_def)
    then have "afterResult opts n result p = toTimeout opts ?p2" using e by simp
    then show "timedOut m (afterResult opts n result p)"
      using p om \<open>n = m\<close> by (simp add: toTimeout_def timedOut_def)
  qed
qed

lemma afterError_step:
  assumes p: "isMountedRef p" "isActivePollingRef p" "isLocked p" "timerRef p = None"
      "fetchCalls p = n" "maxAttemptsReachedCalls p = 0"
    and m: "maxAttempts opts = Some m" "0 < m" and om: "onMaxAttemptsReached opts"
  shows "(n < m \<longrightarrow> waiting n (afterError opts n err p)) \<and>
         (n = m \<longrightarrow> timedOut m (afterError opts n err p))"
proof (intro conjI impI)
  assume "n < m"
  then have "\<not> maxAttemptsHit opts n" using m by (simp add: maxAttemptsHit_def)
  then show "waiting n (afterError opts n err p)"
    using p by (simp add: afterError_def Let_def scheduleNext_def waiting_def)
next
  assume "n = m"
  then have "maxAttemptsHit opts n" using m by (simp add: maxAttemptsHit_def)
  then show "timedOut m (afterError opts n err p)"
    using p om \<open>n = m\<close> by (simp add: afterError_def Let_def toTimeout_def timedOut_def)
qed

lemma executePoll_step:
  assumes ac: "alwaysContinue opts" and nc: "neverComplete opts"
    and m: "maxAttempts opts = Some m" "0 < m" and om: "onMaxAttemptsReached opts"
    and f: "fresh n p"
  shows "(n < m \<longrightarrow> waiting n (executePoll opts n p)) \<and>
         (n = m \<longrightarrow> timedOut m (executePoll opts n p))"
proof -
  let ?p2 = "p\<lparr>isLocked := True, pollHistoryRef := pollHistoryRef p @ [n]\<rparr>"
  let ?p3 = "snd (askContinue opts ?p2)"
  let ?p4 = "?p3\<lparr>fetchCalls := fetchCalls ?p3 + 1\<rparr>"
  from f have fp: "isMountedRef p" "isActivePollingRef p" "\<not> isLocked p" "timerRef p = None"
    "Suc (fetchCalls p) = n" "maxAttemptsReachedCalls p = 0"
    by (simp_all add: fresh_def)
  have e: "executePoll opts n p =
      (case pollingFn opts (fetchCalls ?p3) of
         Inr result \<Rightarrow> afterResult opts n result ?p4
       | Inl err \<Rightarrow> afterError opts n err ?p4)"
    using fp(1,2,3) askContinue_always [OF ac, of ?p2]
    by (simp add: executePoll_def Let_def case_prod_beta split: sum.splits)
  have q: "isMountedRef ?p4" "isActivePollingRef ?p4" "isLocked ?p4" "timerRef ?p4 = None"
      "fetchCalls ?p4 = n" "maxAttemptsReachedCalls ?p4 = 0"
    using fp by (simp_all add: askContinue_state)
  show ?thesis
  proof (cases "pollingFn opts (fetchCalls ?p3)")
    case (Inl err)
    then have x: "executePoll opts n p = afterError opts n err ?p4"
      using e by simp
    show ?thesis
      unfolding x by (rule afterError_step [OF q m om])
  next
    case (Inr result)
    with nc have r: "\<not> isCompletedResponse result"
      unfolding neverComplete_def by (metis (mono_tags, lifting) sum.case(2))
    from Inr have x: "executePoll opts n p = afterResult opts n result ?p4"
      using e by simp
    show ?thesis
      unfolding x by (rule afterResult_step [OF ac r q m om])
  qed
qed

lemma fireTimer_waiting:
  assumes "waiting n p"
  shows "fireTimer opts p = executePoll opts (Suc n) (p\<lparr>timerRef := None, isLocked := False\<rparr>) \<and>
         fresh (Suc n) (p\<lparr>timerRef := None, isLocked := False\<rparr>)"
  using assms by (simp add: waiting_def fireTimer_def fresh_def)

lemma fireTimer_timedOut: "timedOut m p \<Longrightarrow> fireTimer opts p = p"
  by (simp add: timedOut_def fireTimer_def)

lemma polls_from_first:
  assumes ac: "alwaysContinue opts" and nc: "neverComplete opts"
    and m: "maxAttempts opts = Some m" "0 < m" and om: "onMaxAttemptsReached opts"
    and f: "fresh 1 q"
  shows "(Suc k < m \<longrightarrow> waiting (Suc k) ((fireTimer opts ^^ k) (executePoll opts 1 q))) \<and>
         (m \<le> Suc k \<longrightarrow> timedOut m ((fireTimer opts ^^ k) (executePoll opts 1 q)))"
proof (induction k)
  case 0
  from executePoll_step [OF ac nc m om f] m(2) show ?case
    by (cases "m = 1") auto
next
  case (Suc k)
  let ?s = "(fireTimer opts ^^ k) (executePoll opts 1 q)"
  let ?x = "executePoll opts (Suc (Suc k)) (?s\<lparr>timerRef := None, isLocked := False\<rparr>)"
  show ?case
  proof (cases "Suc k < m")
    case True
    with Suc have w: "waiting (Suc k) ?s" by simp
    from fireTimer_waiting [OF w, of opts]
    have e: "fireTimer opts ?s = ?x"
      and fr: "fresh (Suc (Suc k)) (?s\<lparr>timerRef := None, isLocked := False\<rparr>)" by simp_all
    have x: "(fireTimer opts ^^ Suc k) (executePoll opts 1 q) = ?x"
      using e by simp
    note step = executePoll_step [OF ac nc m om fr]
    show ?thesis
      unfolding x
    proof (intro conjI impI)
      assume "Suc (Suc k) < m"
      then show "waiting (Suc (Suc k)) ?x" using step by blast
    next
      assume "m \<le> Suc (Suc k)"
      with True have "Suc (Suc k) = m" by simp
      then show "timedOut m ?x" using step by blast
    qed
  next
    case False
    with Suc have t: "timedOut m ?s" by simp
    have x: "(fireTimer opts ^^ Suc k) (executePoll opts 1 q) = ?s"
      using fireTimer_timedOut [OF t, of opts] by simp
    show ?thesis
      unfolding x using t False by simp
  qed
qed

lemma run_outcome:
  assumes "(Suc j < m \<longrightarrow> waiting (Suc j) s) \<and> (m \<le> Suc j \<longrightarrow> timedOut m s)"
  shows "(Suc j < m \<longrightarrow> status s \<noteq> StatusTimeout \<and> maxAttemptsReachedCalls s = 0) \<and>
         (m \<le> Suc j \<longrightarrow>
            status s = StatusTimeout \<and> maxAttemptsReachedCalls s = 1 \<and> fetchCalls s = m \<and>
            timerRef s = None \<and> \<not> isActivePollingRef s \<and> fireTimer opts s = s)"
  using assms fireTimer_timedOut [of m s opts] by (auto simp: waiting_def timedOut_def)

text \<open>
  Claim C7. If the polling function never yields a completed response, the caller never
  asks to stop and the hook stays mounted, then with \<^verbatim>\<open>maxAttempts = m\<close> the status is not
  \<^verbatim>\<open>timeout\<close> before attempt \<open>m\<close> has run, and from then on the status is \<^verbatim>\<open>timeout\<close>,
  \<^verbatim>\<open>onMaxAttemptsReached\<close> has been called exactly once, the polling function has been called
  exactly \<open>m\<close> times, no timer is pending and further timer callbacks change nothing.
\<close>

theorem usePolling_times_out:
  assumes "neverComplete opts" and "alwaysContinue opts"
    and "maxAttempts opts = Some m" and "0 < m" and "onMaxAttemptsReached opts"
  shows "(Suc k < m + startDelay opts \<longrightarrow>
            status (run opts k) \<noteq> StatusTimeout \<and> maxAttemptsReachedCalls (run opts k) = 0) \<and>
         (m + startDelay opts \<le> Suc k \<longrightarrow>
            status (run opts k) = StatusTimeout \<and>
            maxAttemptsReachedCalls (run opts k) = 1 \<and>
            fetchCalls (run opts k) = m \<and>
            timerRef (run opts k) = None \<and>
            \<not> isActivePollingRef (run opts k) \<and>
            fireTimer opts (run opts k) = run opts k)"
proof -
  let ?p1 = "mountedPoller\<lparr>timerRef := None, isActivePollingRef := True,
                     hasSuccessfulResponseRef := False, pollHistoryRef := [], isLocked := False,
                     isPolling := True, attempt := 0, data := None, pollError := None,
                     status := StatusPolling\<rparr>"
  have f: "fresh 1 ?p1" by (simp add: fresh_def mountedPoller_def)
  note main = polls_from_first [OF assms(2) assms(1) assms(3) assms(4) assms(5) f]
  show ?thesis
  proof (cases "startDelay opts = 0")
    case True
    then have d: "\<not> (case initialDelay opts of None \<Rightarrow> False | Some d \<Rightarrow> d > 0)"
      by (auto simp: startDelay_def split: option.splits if_splits)
    have r: "run opts k = (fireTimer opts ^^ k) (executePoll opts 1 ?p1)"
      using d by (simp add: run_def startPolling_def mountedPoller_def Let_def)
    show ?thesis
      unfolding r True using run_outcome [OF main [of k], of opts] by simp
  next
    case False
    then have d: "(case initialDelay opts of None \<Rightarrow> False | Some d \<Rightarrow> d > 0)"
      and sd: "startDelay opts = 1"
      by (auto simp: startDelay_def split: option.splits if_splits)
    have s: "startPolling opts mountedPoller = ?p1\<lparr>timerRef := Some InitialTimer\<rparr>"
      using d by (simp add: startPolling_def mountedPoller_def Let_def)
    have fi: "fireTimer opts (?p1\<lparr>timerRef := Some InitialTimer\<rparr>) = executePoll opts 1 ?p1"
      by (simp add: fireTimer_def mountedPoller_def)
    show ?thesis
    proof (cases k)
      case 0
      then have r0: "run opts k = ?p1\<lparr>timerRef := Some InitialTimer\<rparr>"
        by (simp add: run_def s)
      show ?thesis
        unfolding r0 using sd assms(4) 0 by (simp add: mountedPoller_def)
    next
      case (Suc j)
      have r: "run opts (Suc j) = (fireTimer opts ^^ j) (executePoll opts 1 ?p1)"
        by (simp only: run_def funpow_Suc_right comp_apply s fi)
      show ?thesis
        unfolding Suc r sd using run_outcome [OF main [of j], of opts] by simp
    qed
  qed
qed

theorem usePolling_times_out_witness:
  "status (run scenarioB 28) \<noteq> StatusTimeout \<and>
   maxAttemptsReachedCalls (run scenarioB 28) = 0 \<and>
   status (run scenarioB 29) = StatusTimeout \<and>
   maxAttemptsReachedCalls (run scenarioB 29) = 1 \<and>
   fetchCalls (run scenarioB 29) = 30 \<and>
   timerRef (run scenarioB 29) = None \<and>
   maxAttemptsReachedCalls (run scenarioB 1000) = 1 \<and>
   fetchCalls (run scenarioB 1000) = 30"
proof -
  have n: "neverComplete scenarioB"
    by (simp add: neverComplete_def scenarioB_def isCompletedResponse_def responseContent_def)
  have c: "alwaysContinue scenarioB" by (simp add: alwaysContinue_def scenarioB_def)
  have m: "maxAttempts scenarioB = Some 30" by (simp add: scenarioB_def)
  have o: "onMaxAttemptsReached scenarioB" by (simp add: scenarioB_def)
  have d: "startDelay scenarioB = 0" by (simp add: startDelay_def scenarioB_def)
  show ?thesis
    using usePolling_times_out [OF n c m _ o, of 28] usePolling_times_out [OF n c m _ o, of 29]
      usePolling_times_out [OF n c m _ o, of 1000]
    by (simp add: d)
qed

end
